theory Spec2Isabelle
  imports Complex_Main "HOL-Library.Char_ord" "HOL-Library.List_Lexorder"
begin

section \<open>The data-access layer of hv\<close>

text \<open>
  A shallow embedding of the Go code of the \<open>Database\<close> type (\<open>package main\<close>; in the
  source tree it stands in \<open>src/client/index.js\<close>, after the client script): the
  credential store, the session-token ledger, the search query builder and the import
  pipeline. Go strings and byte slices are byte sequences, so both are \<^typ>\<open>string\<close>
  (a list of 8-bit characters). Go's \<open>int\<close> is \<^typ>\<open>int\<close>: lengths, page numbers and
  the offset \<open>pageSize * (pageNumber - 1)\<close>, which is computed only for a page number
  not above the number of rows, stay far below the 64-bit bound.
\<close>

subsection \<open>Constants and error values\<close>

definition PasswordSaltLength :: nat where
  "PasswordSaltLength = 16"

definition SessionTokenLength :: nat where
  "SessionTokenLength = 30"

definition MaxTokensPerUser :: nat where
  "MaxTokensPerUser = 20"

text \<open>
  Every error value the modelled functions return: the \<open>DatabaseError\<close> codes, the three
  \<open>SessionTokensError\<close> values, the \<open>fmt.Errorf\<close> errors of the import (their numbers
  kept as arguments), an error of the SQL driver, \<open>sql.ErrNoRows\<close>, and a Go panic.
\<close>

datatype error =
    DatabaseErrorInvalidMetadata
  | DatabaseErrorInvalidSchema
  | DatabaseErrorExistentUser
  | DatabaseErrorInexistentUser
  | DatabaseErrorInvalidPassword
  | DatabaseErrorDisallowedUsername
  | DatabaseErrorDisallowedPassword
  | DatabaseErrorInvalidToken
  | DatabaseErrorInvalidPageNumber
  | DatabaseErrorInvalidId
  | DatabaseErrorUnauthorized
  | DatabaseErrorInvalidPageSize
  | SessionTokensErrorInvalidSlice
  | SessionTokensErrorInvalidString
  | SessionTokensErrorUnknownToken
  | ErrFailedToOpenFile
  | ErrFailedToDecodeJson
  | ErrFailedToReadDirectory
  | ErrPagesMissing int int
  | ErrTooManyPages int int
  | ErrPagesNotSequential int int
  | ErrSqlDriver
  | ErrNoRows
  | Panic

type_synonym 'a result = "error + 'a"

subsection \<open>Library functions the file calls\<close>

text \<open>
  The two digests and \<open>path.Join\<close> are taken as parameters: nothing below depends on
  what they compute, only on their being functions.
\<close>

record lib =
  sha256_Sum256 :: "string \<Rightarrow> string"
  argon2_IDKey :: "string \<Rightarrow> string \<Rightarrow> nat \<Rightarrow> nat \<Rightarrow> nat \<Rightarrow> nat \<Rightarrow> string"
  path_Join :: "string \<Rightarrow> string \<Rightarrow> string"

text \<open>\<open>base64.URLEncoding.EncodeToString\<close>: the URL-safe alphabet, padded with \<open>=\<close>.\<close>

definition encodeURL :: string where
  "encodeURL = ''ABCDEFGHIJKLMNOPQRSTUVWXYZabcdefghijklmnopqrstuvwxyz0123456789-_''"

fun base64encode :: "string \<Rightarrow> string" where
  "base64encode (a # b # c # rest) =
     (let val = (of_char a :: nat) * 65536 + of_char b * 256 + of_char c
      in [encodeURL ! (val div 262144 mod 64), encodeURL ! (val div 4096 mod 64),
          encodeURL ! (val div 64 mod 64), encodeURL ! (val mod 64)]) @ base64encode rest"
| "base64encode [a, b] =
     (let val = (of_char a :: nat) * 65536 + of_char b * 256
      in [encodeURL ! (val div 262144 mod 64), encodeURL ! (val div 4096 mod 64),
          encodeURL ! (val div 64 mod 64), CHR ''=''])"
| "base64encode [a] =
     (let val = (of_char a :: nat) * 65536
      in [encodeURL ! (val div 262144 mod 64), encodeURL ! (val div 4096 mod 64),
          CHR ''='', CHR ''=''])"
| "base64encode [] = []"

text \<open>
  \<open>crypto/rand.Read\<close> draws from the operating system; the bytes it will deliver are the
  \<open>entropy\<close> tape. A read the tape cannot serve is the error on which \<open>randomString\<close>
  panics.
\<close>

definition rand_Read :: "nat \<Rightarrow> string \<Rightarrow> (string \<times> string) option" where
  "rand_Read n entropy =
     (if length entropy < n then None else Some (take n entropy, drop n entropy))"

definition randomString :: "nat \<Rightarrow> string \<Rightarrow> (string \<times> string) result" where
  "randomString n entropy =
     (case rand_Read n entropy of
        None \<Rightarrow> Inl Panic
      | Some (bytes, rest) \<Rightarrow> Inr (base64encode bytes, rest))"

definition hashPassword :: "lib \<Rightarrow> string \<Rightarrow> string \<Rightarrow> string" where
  "hashPassword L password salt = base64encode (argon2_IDKey L password salt 3 65536 4 32)"

definition hashToken :: "lib \<Rightarrow> string \<Rightarrow> string \<Rightarrow> string" where
  "hashToken L token salt = base64encode (sha256_Sum256 L (token @ salt))"

subsection \<open>File names and page numbers\<close>

text \<open>
  \<open>path.Ext\<close> scans from the end for a dot and stops at a slash;
  \<open>strconv.ParseUint(s, 10, 32)\<close> accepts a non-empty run of decimal digits whose value
  fits 32 bits.
\<close>

definition path_Ext :: "string \<Rightarrow> string" where
  "path_Ext p =
     (let seg = takeWhile (\<lambda>c. c \<noteq> CHR ''/'') (rev p)
      in if CHR ''.'' \<in> set seg
         then CHR ''.'' # rev (takeWhile (\<lambda>c. c \<noteq> CHR ''.'') seg)
         else [])"

definition removeExtension :: "string \<Rightarrow> string" where
  "removeExtension fileName =
     (let ext = path_Ext fileName
      in if ext \<noteq> [] then take (length fileName - length ext) fileName else fileName)"

definition digit_value :: "char \<Rightarrow> nat option" where
  "digit_value c = map_of (zip ''0123456789'' [0 ..< 10]) c"

fun parse_digits :: "nat \<Rightarrow> string \<Rightarrow> nat option" where
  "parse_digits acc [] = Some acc"
| "parse_digits acc (c # cs) =
     (case digit_value c of None \<Rightarrow> None | Some d \<Rightarrow> parse_digits (acc * 10 + d) cs)"

definition ParseUint32 :: "string \<Rightarrow> nat option" where
  "ParseUint32 s =
     (if s = [] then None
      else case parse_digits 0 s of
             None \<Rightarrow> None
           | Some n \<Rightarrow> if n > 4294967295 then None else Some n)"

definition pageNameToPageNumber :: "string \<Rightarrow> int" where
  "pageNameToPageNumber fileName =
     (case ParseUint32 (removeExtension fileName) of
        None \<Rightarrow> - 1
      | Some pageNumber \<Rightarrow> int pageNumber)"

subsection \<open>Username and password rules\<close>

text \<open>
  \<open>isUsernameValid\<close> ranges over the runes of the name. Every allowed rune is one ASCII
  byte and no byte of a longer UTF-8 sequence decodes to one, so the test is the same
  over the bytes.
\<close>

definition allowedCharacters :: string where
  "allowedCharacters =
     ''AaBbCcDdEeFfGgHhIiJjKkLlMmNnOoPpQqRrSsTtUuVvWwXxYyZz0123456789._-''"

definition isUsernameValid :: "string \<Rightarrow> bool" where
  "isUsernameValid username =
     (if length username < 1 then False
      else list_all (\<lambda>c. c \<in> set allowedCharacters) username)"

definition isPasswordValid :: "string \<Rightarrow> bool" where
  "isPasswordValid password = (length password > 0)"

subsection \<open>The session-token ledger\<close>

text \<open>
  \<open>SessionTokens\<close> is the text of the \<open>session_tokens\<close> column. The model keeps what
  \<open>json.Unmarshal\<close> reads from it: the empty string, a text that decodes to a slice of
  string slices (what \<open>jsonEncode\<close> wrote), or a text that does not decode.
\<close>

datatype SessionTokens =
    SessionTokens_empty
  | SessionTokens_json "string list list"
  | SessionTokens_undecodable

definition NewSessionTokens :: "string list list \<Rightarrow> SessionTokens result" where
  "NewSessionTokens slice =
     (if list_ex (\<lambda>x. length x \<noteq> 2) slice then Inl SessionTokensErrorInvalidSlice
      else Inr (SessionTokens_json slice))"

fun ToSlice :: "SessionTokens \<Rightarrow> string list list result" where
  "ToSlice SessionTokens_empty = Inr []"
| "ToSlice (SessionTokens_json tokensSlice) = Inr tokensSlice"
| "ToSlice SessionTokens_undecodable = Inl SessionTokensErrorInvalidString"

text \<open>
  \<open>AppendNew\<close> returns the raw token or the error, the new value of the receiver (the old
  one when it fails) and the entropy left.
\<close>

definition AppendNew ::
  "lib \<Rightarrow> SessionTokens \<Rightarrow> string \<Rightarrow> string result \<times> SessionTokens \<times> string" where
  "AppendNew L tokens entropy =
     (case ToSlice tokens of
        Inl err \<Rightarrow> (Inl err, tokens, entropy)
      | Inr tokensSlice \<Rightarrow>
          (case randomString SessionTokenLength entropy of
             Inl err \<Rightarrow> (Inl err, tokens, entropy)
           | Inr (token, entropy1) \<Rightarrow>
               (case randomString PasswordSaltLength entropy1 of
                  Inl err \<Rightarrow> (Inl err, tokens, entropy1)
                | Inr (salt, entropy2) \<Rightarrow>
                    (let hash = hashToken L token salt;
                         appended = tokensSlice @ [[hash, salt]];
                         tokensSlice' =
                           (if length appended \<ge> MaxTokensPerUser then drop 1 appended
                            else appended)
                     in case NewSessionTokens tokensSlice' of
                          Inl err \<Rightarrow> (Inl err, tokens, entropy2)
                        | Inr newTokens \<Rightarrow> (Inr token, newTokens, entropy2)))))"

text \<open>
  The scans of \<open>RemoveToken\<close> and \<open>HasToken\<close> index every entry at 0 and 1: an entry
  shorter than two strings is Go's index-out-of-range panic.
\<close>

fun find_token :: "lib \<Rightarrow> string \<Rightarrow> string list list \<Rightarrow> nat \<Rightarrow> nat option result" where
  "find_token L token [] i = Inr None"
| "find_token L token (t # ts) i =
     (if length t < 2 then Inl Panic
      else if hashToken L token (t ! 1) \<noteq> t ! 0 then find_token L token ts (i + 1)
      else Inr (Some i))"

definition RemoveToken :: "lib \<Rightarrow> SessionTokens \<Rightarrow> string \<Rightarrow> unit result \<times> SessionTokens" where
  "RemoveToken L tokens token =
     (case ToSlice tokens of
        Inl err \<Rightarrow> (Inl err, tokens)
      | Inr tokensSlice \<Rightarrow>
          (case find_token L token tokensSlice 0 of
             Inl err \<Rightarrow> (Inl err, tokens)
           | Inr None \<Rightarrow> (Inl SessionTokensErrorUnknownToken, tokens)
           | Inr (Some tokenIndex) \<Rightarrow>
               (case NewSessionTokens
                       (take tokenIndex tokensSlice @ drop (tokenIndex + 1) tokensSlice) of
                  Inl err \<Rightarrow> (Inl err, tokens)
                | Inr newTokens \<Rightarrow> (Inr (), newTokens))))"

definition HasToken :: "lib \<Rightarrow> SessionTokens \<Rightarrow> string \<Rightarrow> bool result" where
  "HasToken L tokens token =
     (case ToSlice tokens of
        Inl err \<Rightarrow> Inl err
      | Inr tokensSlice \<Rightarrow>
          (case find_token L token tokensSlice 0 of
             Inl err \<Rightarrow> Inl err
           | Inr None \<Rightarrow> Inr False
           | Inr (Some i) \<Rightarrow> Inr True))"

subsection \<open>The store\<close>

text \<open>
  The tables of the SQLite file, as lists of rows in insertion order. The array columns
  of \<open>Doujins\<close> hold JSON text written by \<open>jsonEncode\<close>; the model keeps the decoded
  list. \<open>seq_Doujins\<close> and the like are the \<open>AUTOINCREMENT\<close> counters.

  Any statement may fail in the driver. \<open>faults\<close> is the schedule of those failures: each
  statement sent to the driver takes the head (\<open>True\<close>: this statement fails), and an
  empty schedule means no failure from then on. \<open>entropy\<close> is the tape of
  \<open>crypto/rand\<close>.
\<close>

record Users_row =
  Users_id :: int
  username :: string
  password_hash :: string
  password_salt :: string
  session_tokens :: SessionTokens

record Doujins_row =
  Doujins_id :: int
  title :: string
  subtitle :: string
  upload_date :: string
  external_rating :: int
  tags :: "string list"
  characters :: "string list"
  artists :: "string list"
  groups :: "string list"
  languages :: "string list"
  pages :: int

record DoujinPages_row =
  DoujinPages_id :: int
  doujin_id :: int
  page_path :: string
  page_number :: int

record world =
  Users :: "Users_row list"
  Doujins :: "Doujins_row list"
  DoujinPages :: "DoujinPages_row list"
  seq_Users :: int
  seq_Doujins :: int
  seq_DoujinPages :: int
  faults :: "bool list"
  entropy :: string

definition sql_step :: "world \<Rightarrow> bool \<times> world" where
  "sql_step w = (case faults w of [] \<Rightarrow> (False, w) | f # fs \<Rightarrow> (f, w\<lparr>faults := fs\<rparr>))"

text \<open>
  \<open>COLLATE NOCASE\<close> folds the 26 upper-case ASCII letters to lower case and compares
  the bytes.
\<close>

definition sqlite_lower :: "char \<Rightarrow> char" where
  "sqlite_lower c =
     (case map_of (zip ''ABCDEFGHIJKLMNOPQRSTUVWXYZ'' ''abcdefghijklmnopqrstuvwxyz'') c of
        None \<Rightarrow> c
      | Some l \<Rightarrow> l)"

definition nocase_eq :: "string \<Rightarrow> string \<Rightarrow> bool" where
  "nocase_eq a b = (map sqlite_lower a = map sqlite_lower b)"

text \<open>\<open>SELECT ... FROM Users WHERE username = ? COLLATE NOCASE\<close>, read by \<open>QueryRow\<close>:
  the first matching row.\<close>

definition select_user :: "world \<Rightarrow> string \<Rightarrow> Users_row option" where
  "select_user w name = find (\<lambda>r. nocase_eq (username r) name) (Users w)"

text \<open>\<open>UPDATE Users SET session_tokens = ? WHERE username = ? COLLATE NOCASE\<close>.\<close>

definition update_session_tokens :: "world \<Rightarrow> SessionTokens \<Rightarrow> string \<Rightarrow> world" where
  "update_session_tokens w sessionTokens name =
     w\<lparr>Users := map (\<lambda>r. if nocase_eq (username r) name
                           then r\<lparr>session_tokens := sessionTokens\<rparr> else r) (Users w)\<rparr>"

subsection \<open>The credential store\<close>

definition authenticateUser :: "lib \<Rightarrow> world \<Rightarrow> string \<Rightarrow> string \<Rightarrow> int result \<times> world" where
  "authenticateUser L w name token =
     (let (failed, w1) = sql_step w
      in if failed then (Inl ErrSqlDriver, w1)
         else case select_user w1 name of
                None \<Rightarrow> (Inl DatabaseErrorInexistentUser, w1)
              | Some row \<Rightarrow>
                  (case HasToken L (session_tokens row) token of
                     Inl err \<Rightarrow> (Inl err, w1)
                   | Inr hasToken \<Rightarrow>
                       if \<not> hasToken then (Inl DatabaseErrorInvalidToken, w1)
                       else (Inr (Users_id row), w1)))"

definition RegisterUser :: "lib \<Rightarrow> world \<Rightarrow> string \<Rightarrow> string \<Rightarrow> unit result \<times> world" where
  "RegisterUser L w name password =
     (if \<not> isUsernameValid name then (Inl DatabaseErrorDisallowedUsername, w)
      else if \<not> isPasswordValid password then (Inl DatabaseErrorDisallowedPassword, w)
      else let (failed, w1) = sql_step w
           in if failed then (Inl ErrSqlDriver, w1)
              else case select_user w1 name of
                     Some row \<Rightarrow> (Inl DatabaseErrorExistentUser, w1)
                   | None \<Rightarrow>
                       (case randomString PasswordSaltLength (entropy w1) of
                          Inl err \<Rightarrow> (Inl err, w1)
                        | Inr (passwordSalt, rest) \<Rightarrow>
                            (let passwordHash = hashPassword L password passwordSalt;
                                 w2 = w1\<lparr>entropy := rest\<rparr>;
                                 (failed', w3) = sql_step w2
                             in if failed' then (Inl ErrSqlDriver, w3)
                                else (Inr (),
                                      w3\<lparr>Users := Users w3 @
                                            [\<lparr>Users_id = seq_Users w3 + 1, username = name,
                                              password_hash = passwordHash,
                                              password_salt = passwordSalt,
                                              session_tokens = SessionTokens_empty\<rparr>],
                                          seq_Users := seq_Users w3 + 1\<rparr>))))"

definition LoginUser :: "lib \<Rightarrow> world \<Rightarrow> string \<Rightarrow> string \<Rightarrow> string result \<times> world" where
  "LoginUser L w name password =
     (let (failed, w1) = sql_step w
      in if failed then (Inl ErrSqlDriver, w1)
         else case select_user w1 name of
                None \<Rightarrow> (Inl DatabaseErrorInexistentUser, w1)
              | Some row \<Rightarrow>
                  if hashPassword L password (password_salt row) \<noteq> password_hash row
                  then (Inl DatabaseErrorInvalidPassword, w1)
                  else (case AppendNew L (session_tokens row) (entropy w1) of
                          (Inl err, sessionTokens, rest) \<Rightarrow> (Inl err, w1\<lparr>entropy := rest\<rparr>)
                        | (Inr token, sessionTokens, rest) \<Rightarrow>
                            (let (failed', w2) = sql_step (w1\<lparr>entropy := rest\<rparr>)
                             in if failed' then (Inl ErrSqlDriver, w2)
                                else (Inr token, update_session_tokens w2 sessionTokens name))))"

text \<open>\<open>SELECT username FROM Users WHERE id = ?\<close>, read by \<open>QueryRow\<close>; no row is
  \<open>sql.ErrNoRows\<close>, which \<open>GetUsername\<close> returns as it is.\<close>

definition select_username_by_id :: "world \<Rightarrow> int \<Rightarrow> string option" where
  "select_username_by_id w userId =
     map_option username (find (\<lambda>r. Users_id r = userId) (Users w))"

definition GetUsername :: "lib \<Rightarrow> world \<Rightarrow> string \<Rightarrow> string \<Rightarrow> string result \<times> world" where
  "GetUsername L w name token =
     (case authenticateUser L w name token of
        (Inl err, w1) \<Rightarrow> (Inl err, w1)
      | (Inr userId, w1) \<Rightarrow>
          (let (failed, w2) = sql_step w1
           in if failed then (Inl ErrSqlDriver, w2)
              else case select_username_by_id w2 userId of
                     None \<Rightarrow> (Inl ErrNoRows, w2)
                   | Some actualUsername \<Rightarrow> (Inr actualUsername, w2)))"

definition IsAuthDataValid :: "lib \<Rightarrow> world \<Rightarrow> string \<Rightarrow> string \<Rightarrow> bool result \<times> world" where
  "IsAuthDataValid L w name token =
     (case authenticateUser L w name token of
        (Inl err, w1) \<Rightarrow>
          if err = DatabaseErrorInexistentUser \<or> err = DatabaseErrorInvalidToken
          then (Inr False, w1)
          else (Inl err, w1)
      | (Inr userId, w1) \<Rightarrow> (Inr True, w1))"

definition LogoutUser :: "lib \<Rightarrow> world \<Rightarrow> string \<Rightarrow> string \<Rightarrow> unit result \<times> world" where
  "LogoutUser L w name token =
     (let (failed, w1) = sql_step w
      in if failed then (Inl ErrSqlDriver, w1)
         else case select_user w1 name of
                None \<Rightarrow> (Inl DatabaseErrorInexistentUser, w1)
              | Some row \<Rightarrow>
                  (case RemoveToken L (session_tokens row) token of
                     (Inl err, sessionTokens) \<Rightarrow>
                       if err = SessionTokensErrorUnknownToken
                       then (Inl DatabaseErrorInvalidToken, w1)
                       else (Inl err, w1)
                   | (Inr u, sessionTokens) \<Rightarrow>
                       (let (failed', w2) = sql_step w1
                        in if failed' then (Inl ErrSqlDriver, w2)
                           else (Inr (), update_session_tokens w2 sessionTokens name))))"

subsection \<open>The import pipeline\<close>

text \<open>
  What \<open>RegisterDoujin\<close> reads from the file system: the outcome of opening and decoding
  \<open>metadata.json\<close>, and the outcome of \<open>os.ReadDir\<close>. \<open>UploadDate\<close> is kept as the text
  \<open>Format(time.RFC3339)\<close> gives.
\<close>

record DoujinImportMetadata =
  meta_Title :: string
  meta_Subtitle :: string
  meta_ExternalRating :: int
  meta_UploadDate :: string
  meta_Characters :: "string list"
  meta_Tags :: "string list"
  meta_Artists :: "string list"
  meta_Groups :: "string list"
  meta_Languages :: "string list"
  meta_Pages :: int

datatype metadata_file =
    OpenFails
  | DecodeFails
  | Decodes DoujinImportMetadata

record DirEntry =
  entry_Name :: string
  entry_IsDir :: bool

record folder =
  metadata_json :: metadata_file
  ReadDir :: "DirEntry list option"

text \<open>
  The page transaction: the rows inserted so far and the counter as the transaction sees
  it. \<open>tx_Commit\<close> writes both to the store; a rollback drops the value.
\<close>

record Tx =
  tx_rows :: "DoujinPages_row list"
  tx_seq :: int

definition tx_Begin :: "world \<Rightarrow> Tx" where
  "tx_Begin w = \<lparr>tx_rows = [], tx_seq = seq_DoujinPages w\<rparr>"

definition tx_Insert :: "Tx \<Rightarrow> int \<Rightarrow> string \<Rightarrow> int \<Rightarrow> Tx" where
  "tx_Insert tx doujinId pagePath pageNumber =
     \<lparr>tx_rows = tx_rows tx @
        [\<lparr>DoujinPages_id = tx_seq tx + 1, doujin_id = doujinId, page_path = pagePath,
          page_number = pageNumber\<rparr>],
      tx_seq = tx_seq tx + 1\<rparr>"

definition tx_Commit :: "world \<Rightarrow> Tx \<Rightarrow> world" where
  "tx_Commit w tx =
     w\<lparr>DoujinPages := DoujinPages w @ tx_rows tx, seq_DoujinPages := tx_seq tx\<rparr>"

text \<open>
  The loop over the directory entries. It returns on the first failed insert; otherwise
  it yields the world (its fault schedule advanced), the transaction and the collected
  page numbers.
\<close>

fun import_entries ::
  "lib \<Rightarrow> string \<Rightarrow> int \<Rightarrow> DirEntry list \<Rightarrow> world \<Rightarrow> Tx \<Rightarrow> int list
     \<Rightarrow> (error \<times> world) + (world \<times> Tx \<times> int list)" where
  "import_entries L folderPath doujinId [] w tx importedPages = Inr (w, tx, importedPages)"
| "import_entries L folderPath doujinId (e # es) w tx importedPages =
     (let pageNumber = pageNameToPageNumber (entry_Name e)
      in if entry_IsDir e \<or> pageNumber = - 1
         then import_entries L folderPath doujinId es w tx importedPages
         else let (failed, w1) = sql_step w
              in if failed then Inl (ErrSqlDriver, w1)
                 else import_entries L folderPath doujinId es w1
                        (tx_Insert tx doujinId (path_Join L folderPath (entry_Name e)) pageNumber)
                        (importedPages @ [pageNumber]))"

text \<open>The check after \<open>sort.Ints\<close>: the first index \<open>i\<close> whose page is not \<open>i + 1\<close>.\<close>

fun first_gap :: "int \<Rightarrow> int list \<Rightarrow> (int \<times> int) option" where
  "first_gap i [] = None"
| "first_gap i (pageNumber # rest) =
     (if i + 1 \<noteq> pageNumber then Some (i + 1, pageNumber) else first_gap (i + 1) rest)"

definition insert_doujin :: "world \<Rightarrow> DoujinImportMetadata \<Rightarrow> int \<times> world" where
  "insert_doujin w doujinMeta =
     (let doujinId = seq_Doujins w + 1
      in (doujinId,
          w\<lparr>Doujins := Doujins w @
               [\<lparr>Doujins_id = doujinId, title = meta_Title doujinMeta,
                 subtitle = meta_Subtitle doujinMeta, upload_date = meta_UploadDate doujinMeta,
                 external_rating = meta_ExternalRating doujinMeta, tags = meta_Tags doujinMeta,
                 characters = meta_Characters doujinMeta, artists = meta_Artists doujinMeta,
                 groups = meta_Groups doujinMeta, languages = meta_Languages doujinMeta,
                 pages = meta_Pages doujinMeta\<rparr>],
             seq_Doujins := doujinId\<rparr>))"

definition RegisterDoujin :: "lib \<Rightarrow> world \<Rightarrow> folder \<Rightarrow> string \<Rightarrow> unit result \<times> world" where
  "RegisterDoujin L w dir folderPath =
     (case metadata_json dir of
        OpenFails \<Rightarrow> (Inl ErrFailedToOpenFile, w)
      | DecodeFails \<Rightarrow> (Inl ErrFailedToDecodeJson, w)
      | Decodes doujinMeta \<Rightarrow>
          (let (failed, w1) = sql_step w
           in if failed then (Inl ErrSqlDriver, w1)
              else let (doujinId, w2) = insert_doujin w1 doujinMeta
                   in case ReadDir dir of
                        None \<Rightarrow> (Inl ErrFailedToReadDirectory, w2)
                      | Some entries \<Rightarrow>
                          (let (failed', w3) = sql_step w2
                           in if failed' then (Inl ErrSqlDriver, w3)
                              else case import_entries L folderPath doujinId entries w3
                                          (tx_Begin w3) [] of
                                     Inl (err, w4) \<Rightarrow> (Inl err, w4)
                                   | Inr (w4, tx, importedPages) \<Rightarrow>
                                       if int (length importedPages) < meta_Pages doujinMeta
                                       then (Inl (ErrPagesMissing (int (length importedPages))
                                                    (meta_Pages doujinMeta)), w4)
                                       else if int (length importedPages) > meta_Pages doujinMeta
                                       then (Inl (ErrTooManyPages (int (length importedPages))
                                                    (meta_Pages doujinMeta)), w4)
                                       else (case first_gap 0 (sort importedPages) of
                                               Some (expected, found) \<Rightarrow>
                                                 (Inl (ErrPagesNotSequential expected found), w4)
                                             | None \<Rightarrow>
                                                 (let (failed'', w5) = sql_step w4
                                                  in if failed'' then (Inl ErrSqlDriver, w5)
                                                     else (Inr (), tx_Commit w5 tx))))))"

subsection \<open>The search query builder\<close>

text \<open>\<open>strings.NewReplacer\<close> over three one-byte strings: each byte is replaced on its own.\<close>

definition escapeSqlLike :: "string \<Rightarrow> string" where
  "escapeSqlLike s =
     concat (map (\<lambda>c. if c = CHR 0x5C then [CHR 0x5C, CHR 0x5C]
                        else if c = CHR ''%'' then [CHR 0x5C, CHR ''%'']
                        else if c = CHR ''_'' then [CHR 0x5C, CHR ''_'']
                        else [c]) s)"

text \<open>
  The SQL text is kept as the list of the pieces \<open>WriteString\<close> appends, each with its
  \<open>?\<close> placeholders, beside the list of parameters.
\<close>

datatype sql_arg = ArgText string | ArgInt int

datatype sql_piece =
    SELECT_COUNT
  | SELECT_columns
  | FROM_Doujins_WHERE_title_or_subtitle_LIKE
  | AND_EXISTS_tag
  | AND_NOT_EXISTS_tag
  | ORDER_BY_upload_date_DESC_LIMIT_OFFSET

definition buildSearchQuery ::
  "string \<Rightarrow> string list \<Rightarrow> string list \<Rightarrow> int \<Rightarrow> int \<Rightarrow> bool
     \<Rightarrow> sql_piece list \<times> sql_arg list" where
  "buildSearchQuery query tagList antiTags pageSize pageNumber count =
     (let sqlLikeQuery = ''%'' @ escapeSqlLike query @ ''%'';
          b0 = [if count then SELECT_COUNT else SELECT_columns];
          b1 = b0 @ [FROM_Doujins_WHERE_title_or_subtitle_LIKE];
          p1 = [ArgText sqlLikeQuery, ArgText sqlLikeQuery];
          (b2, p2) = foldl (\<lambda>(b, p) tag. (b @ [AND_EXISTS_tag], p @ [ArgText tag]))
                       (b1, p1) tagList;
          (b3, p3) = foldl (\<lambda>(b, p) tag. (b @ [AND_NOT_EXISTS_tag], p @ [ArgText tag]))
                       (b2, p2) antiTags
      in if \<not> count
         then (b3 @ [ORDER_BY_upload_date_DESC_LIMIT_OFFSET],
               p3 @ [ArgInt pageSize, ArgInt (pageSize * (pageNumber - 1))])
         else (b3, p3))"

subsection \<open>What SQLite does with the statement\<close>

text \<open>
  \<open>LIKE ... ESCAPE '\'\<close>: \<open>%\<close> matches any run of bytes, \<open>_\<close> one, the byte after the
  escape stands for itself, and ASCII letters match without regard to case.
\<close>

fun sql_like :: "string \<Rightarrow> string \<Rightarrow> bool" where
  "sql_like [] s = (s = [])"
| "sql_like (p # ps) s =
     (if p = CHR ''%'' then
        (sql_like ps s \<or> (case s of [] \<Rightarrow> False | c # cs \<Rightarrow> sql_like (p # ps) cs))
      else if p = CHR ''_'' then
        (case s of [] \<Rightarrow> False | c # cs \<Rightarrow> sql_like ps cs)
      else if p = CHR 0x5C then
        (case ps of
           [] \<Rightarrow> False
         | q # qs \<Rightarrow>
             (case s of [] \<Rightarrow> False | c # cs \<Rightarrow> sqlite_lower q = sqlite_lower c \<and> sql_like qs cs))
      else
        (case s of [] \<Rightarrow> False | c # cs \<Rightarrow> sqlite_lower p = sqlite_lower c \<and> sql_like ps cs))"

text \<open>
  Preparing and binding: the statement shapes the builder can produce, with each
  placeholder bound to the parameter at its position. \<open>json_each(Doujins.tags)\<close> with
  \<open>jt.value = ?\<close> asks whether the parameter is an element of the stored array.
\<close>

datatype clause =
    TitleOrSubtitleLike string string
  | TagExists string
  | TagNotExists string

datatype prepared =
    CountRows "clause list"
  | SelectRows "clause list" int int

fun bind_tags :: "sql_piece list \<Rightarrow> sql_arg list \<Rightarrow> clause list \<times> sql_piece list \<times> sql_arg list" where
  "bind_tags (AND_EXISTS_tag # ps) (ArgText t # args) =
     (let (cs, ps', args') = bind_tags ps args in (TagExists t # cs, ps', args'))"
| "bind_tags (AND_NOT_EXISTS_tag # ps) (ArgText t # args) =
     (let (cs, ps', args') = bind_tags ps args in (TagNotExists t # cs, ps', args'))"
| "bind_tags ps args = ([], ps, args)"

fun prepare :: "sql_piece list \<Rightarrow> sql_arg list \<Rightarrow> prepared option" where
  "prepare (sel # FROM_Doujins_WHERE_title_or_subtitle_LIKE # ps) (ArgText a # ArgText b # args) =
     (let (cs, ps', args') = bind_tags ps args;
          filters = TitleOrSubtitleLike a b # cs
      in if sel = SELECT_COUNT \<and> ps' = [] \<and> args' = [] then Some (CountRows filters)
         else if sel = SELECT_columns \<and> ps' = [ORDER_BY_upload_date_DESC_LIMIT_OFFSET]
         then (case args' of
                 [ArgInt limit, ArgInt offset] \<Rightarrow> Some (SelectRows filters limit offset)
               | _ \<Rightarrow> None)
         else None)"
| "prepare ps args = None"

fun clause_holds :: "clause \<Rightarrow> Doujins_row \<Rightarrow> bool" where
  "clause_holds (TitleOrSubtitleLike a b) row = (sql_like a (title row) \<or> sql_like b (subtitle row))"
| "clause_holds (TagExists t) row = (t \<in> set (tags row))"
| "clause_holds (TagNotExists t) row = (t \<notin> set (tags row))"

definition matching :: "clause list \<Rightarrow> Doujins_row list \<Rightarrow> Doujins_row list" where
  "matching filters table = filter (\<lambda>row. list_all (\<lambda>c. clause_holds c row) filters) table"

text \<open>
  \<open>ORDER BY upload_date DESC\<close> compares the stored text bytewise; SQL leaves the order
  of rows with equal keys open, and the model takes one. A negative \<open>LIMIT\<close> is no limit
  and a negative \<open>OFFSET\<close> is 0.
\<close>

definition order_by_upload_date_desc :: "Doujins_row list \<Rightarrow> Doujins_row list" where
  "order_by_upload_date_desc rows = rev (sort_key upload_date rows)"

definition limit_offset :: "int \<Rightarrow> int \<Rightarrow> 'a list \<Rightarrow> 'a list" where
  "limit_offset limit offset rows =
     (let rest = drop (nat offset) rows in if limit < 0 then rest else take (nat limit) rest)"

definition run_count :: "Doujins_row list \<Rightarrow> sql_piece list \<Rightarrow> sql_arg list \<Rightarrow> int option" where
  "run_count table ps args =
     (case prepare ps args of
        Some (CountRows filters) \<Rightarrow> Some (int (length (matching filters table)))
      | _ \<Rightarrow> None)"

definition run_select ::
  "Doujins_row list \<Rightarrow> sql_piece list \<Rightarrow> sql_arg list \<Rightarrow> Doujins_row list option" where
  "run_select table ps args =
     (case prepare ps args of
        Some (SelectRows filters limit offset) \<Rightarrow>
          Some (limit_offset limit offset (order_by_upload_date_desc (matching filters table)))
      | _ \<Rightarrow> None)"

subsection \<open>SearchDoujins\<close>

record Doujin =
  Doujin_Id :: int
  Doujin_Title :: string
  Doujin_Subtitle :: string
  Doujin_UploadDate :: string
  Doujin_ExternalRating :: int
  Doujin_Tags :: "string list"
  Doujin_Characters :: "string list"
  Doujin_Artists :: "string list"
  Doujin_Groups :: "string list"
  Doujin_Languages :: "string list"
  Doujin_Pages :: "int list list"

record SearchResult =
  Entries :: "Doujin list"
  TotalPages :: int

text \<open>\<open>SELECT id FROM DoujinPages WHERE doujin_id = ? AND page_number = 1\<close>; no row
  leaves \<open>capePageId\<close> at 0.\<close>

definition select_cape_page :: "world \<Rightarrow> int \<Rightarrow> int" where
  "select_cape_page w doujinId =
     (case find (\<lambda>p. doujin_id p = doujinId \<and> page_number p = 1) (DoujinPages w) of
        None \<Rightarrow> 0
      | Some p \<Rightarrow> DoujinPages_id p)"

definition to_Doujin :: "Doujins_row \<Rightarrow> int \<Rightarrow> Doujin" where
  "to_Doujin row capePageId =
     \<lparr>Doujin_Id = Doujins_id row, Doujin_Title = title row, Doujin_Subtitle = subtitle row,
      Doujin_UploadDate = upload_date row, Doujin_ExternalRating = external_rating row,
      Doujin_Tags = tags row, Doujin_Characters = characters row,
      Doujin_Artists = artists row, Doujin_Groups = groups row,
      Doujin_Languages = languages row, Doujin_Pages = [[1, capePageId]]\<rparr>"

text \<open>The loop over \<open>rows.Next()\<close>, one cover-page query per row.\<close>

fun scan_rows ::
  "world \<Rightarrow> Doujins_row list \<Rightarrow> Doujin list \<Rightarrow> (error \<times> world) + (Doujin list \<times> world)" where
  "scan_rows w [] doujins = Inr (doujins, w)"
| "scan_rows w (row # rows) doujins =
     (let (failed, w1) = sql_step w
      in if failed then Inl (ErrSqlDriver, w1)
         else scan_rows w1 rows
                (doujins @ [to_Doujin row (select_cape_page w1 (Doujins_id row))]))"

definition SearchDoujins ::
  "lib \<Rightarrow> world \<Rightarrow> string \<Rightarrow> string \<Rightarrow> string \<Rightarrow> string list \<Rightarrow> string list \<Rightarrow> int \<Rightarrow> int
     \<Rightarrow> SearchResult result \<times> world" where
  "SearchDoujins L w name token query tagList antiTags pageSize pageNumber =
     (case authenticateUser L w name token of
        (Inl err, w1) \<Rightarrow> (Inl err, w1)
      | (Inr userId, w1) \<Rightarrow>
          if pageSize < 1 \<or> pageSize > 100 then (Inl DatabaseErrorInvalidPageSize, w1)
          else if pageNumber < 1 then (Inl DatabaseErrorInvalidPageNumber, w1)
          else
            (let (countQuery, countQueryParameters) =
                   buildSearchQuery query tagList antiTags pageSize pageNumber True;
                 (failed, w2) = sql_step w1
             in if failed then (Inl ErrSqlDriver, w2)
                else case run_count (Doujins w2) countQuery countQueryParameters of
                  None \<Rightarrow> (Inl ErrSqlDriver, w2)
                | Some resultsCount \<Rightarrow>
                    if resultsCount < 1 then (Inr \<lparr>Entries = [], TotalPages = 0\<rparr>, w2)
                    else
                      (let totalPages = \<lceil>real_of_int resultsCount / real_of_int pageSize\<rceil>
                       in if pageNumber > totalPages
                          then (Inl DatabaseErrorInvalidPageNumber, w2)
                          else
                            (let (searchQuery, searchQueryParameters) =
                                   buildSearchQuery query tagList antiTags pageSize pageNumber
                                     False;
                                 (failed', w3) = sql_step w2
                             in if failed' then (Inl ErrSqlDriver, w3)
                                else case run_select (Doujins w3) searchQuery
                                            searchQueryParameters of
                                  None \<Rightarrow> (Inl ErrSqlDriver, w3)
                                | Some rows \<Rightarrow>
                                    (case scan_rows w3 rows [] of
                                       Inl (err, w4) \<Rightarrow> (Inl err, w4)
                                     | Inr (doujins, w4) \<Rightarrow>
                                         (Inr \<lparr>Entries = doujins, TotalPages = totalPages\<rparr>,
                                          w4))))))"

subsection \<open>Sequences of ledger operations\<close>

text \<open>
  A run of \<open>AppendNew\<close> and \<open>RemoveToken\<close> calls on one \<open>SessionTokens\<close> value. A call
  that returns an error leaves the receiver as it was.
\<close>

datatype ledger_op = OpAppendNew | OpRemoveToken string

fun run_ops :: "lib \<Rightarrow> ledger_op list \<Rightarrow> SessionTokens \<Rightarrow> string \<Rightarrow> SessionTokens" where
  "run_ops L [] tokens tape = tokens"
| "run_ops L (OpAppendNew # ops) tokens tape =
     (case AppendNew L tokens tape of
        (r, tokens', tape') \<Rightarrow> run_ops L ops tokens' tape')"
| "run_ops L (OpRemoveToken token # ops) tokens tape =
     run_ops L ops (snd (RemoveToken L tokens token)) tape"

definition below_cap :: "SessionTokens \<Rightarrow> bool" where
  "below_cap tokens =
     (case ToSlice tokens of
        Inl err \<Rightarrow> False
      | Inr s \<Rightarrow> length s \<le> MaxTokensPerUser - 1)"

subsection \<open>Example data\<close>

text \<open>Stand-ins for the digests, used where a theorem is run on a concrete input.\<close>

definition example_lib :: lib where
  "example_lib =
     \<lparr>sha256_Sum256 = (\<lambda>m. m), argon2_IDKey = (\<lambda>password salt t m p k. password @ salt),
      path_Join = (\<lambda>a b. a @ ''/'' @ b)\<rparr>"

subsection \<open>Well-formed stores\<close>

text \<open>
  What every write of this file keeps true of the \<open>Users\<close> table: each
  \<open>session_tokens\<close> value decodes to pairs (the value \<open>NewSessionTokens\<close> accepts, or
  the empty string written at registration), and no row's id is above the
  \<open>AUTOINCREMENT\<close> counter.
\<close>

definition wellformed_tokens :: "SessionTokens \<Rightarrow> bool" where
  "wellformed_tokens tokens =
     (case ToSlice tokens of
        Inl err \<Rightarrow> False
      | Inr s \<Rightarrow> list_all (\<lambda>t. length t = 2) s)"

definition store_ok :: "world \<Rightarrow> bool" where
  "store_ok w =
     list_all (\<lambda>r. wellformed_tokens (session_tokens r) \<and> Users_id r \<le> seq_Users w) (Users w)"

text \<open>The row \<open>RegisterUser\<close> inserts when it succeeds.\<close>

definition new_user_row :: "lib \<Rightarrow> world \<Rightarrow> string \<Rightarrow> string \<Rightarrow> Users_row" where
  "new_user_row L w name password =
     \<lparr>Users_id = seq_Users w + 1, username = name,
      password_hash = hashPassword L password (base64encode (take PasswordSaltLength (entropy w))),
      password_salt = base64encode (take PasswordSaltLength (entropy w)),
      session_tokens = SessionTokens_empty\<rparr>"

text \<open>
  Two stores for running theorems on concrete inputs: a fresh database with 62 bytes of
  entropy ahead, and one whose only user, Ammie, holds one session (token \<open>tok\<close>, salt
  \<open>s\<close>, hashed with \<open>example_lib\<close>).
\<close>

definition fresh_store :: world where
  "fresh_store =
     \<lparr>Users = [], Doujins = [], DoujinPages = [], seq_Users = 0, seq_Doujins = 0,
      seq_DoujinPages = 0, faults = [],
      entropy = ''0123456789abcdefghijklmnopqrstuvwxyzABCDEFGHIJKLMNOPQRSTUVWXYZ''\<rparr>"

definition ammie_store :: world where
  "ammie_store =
     \<lparr>Users = [\<lparr>Users_id = 1, username = ''Ammie'', password_hash = ''Y2F0czEyM3NhbHQ='',
                password_salt = ''salt'',
                session_tokens = SessionTokens_json [[''dG9rcw=='', ''s'']]\<rparr>],
      Doujins = [], DoujinPages = [], seq_Users = 1, seq_Doujins = 0, seq_DoujinPages = 0,
      faults = [], entropy = []\<rparr>"






text \<open>
  The page numbers \<open>RegisterDoujin\<close> collects from a directory listing: those of the
  entries that are not directories and whose name parses, in listing order.
\<close>

definition page_numbers :: "DirEntry list \<Rightarrow> int list" where
  "page_numbers es =
     map (\<lambda>e. pageNameToPageNumber (entry_Name e))
       (filter (\<lambda>e. \<not> (entry_IsDir e \<or> pageNameToPageNumber (entry_Name e) = - 1)) es)"

text \<open>
  Folders for running the import on: each declares three pages; the first holds pages
  1 and 2 only, the second pages 1, 2 and 4, the third pages 1 to 3 beside a
  sub-directory.
\<close>

definition example_metadata :: DoujinImportMetadata where
  "example_metadata =
     \<lparr>meta_Title = ''Title'', meta_Subtitle = ''Subtitle'', meta_ExternalRating = 7,
      meta_UploadDate = ''2024-05-01T12:00:00Z'', meta_Characters = [],
      meta_Tags = [''yuri'', ''romance''], meta_Artists = [], meta_Groups = [],
      meta_Languages = [''english''], meta_Pages = 3\<rparr>"

definition folder_missing :: folder where
  "folder_missing =
     \<lparr>metadata_json = Decodes example_metadata,
      ReadDir = Some [\<lparr>entry_Name = ''1.png'', entry_IsDir = False\<rparr>,
                      \<lparr>entry_Name = ''2.png'', entry_IsDir = False\<rparr>,
                      \<lparr>entry_Name = ''metadata.json'', entry_IsDir = False\<rparr>]\<rparr>"

definition folder_gap :: folder where
  "folder_gap =
     \<lparr>metadata_json = Decodes example_metadata,
      ReadDir = Some [\<lparr>entry_Name = ''1.png'', entry_IsDir = False\<rparr>,
                      \<lparr>entry_Name = ''2.png'', entry_IsDir = False\<rparr>,
                      \<lparr>entry_Name = ''4.png'', entry_IsDir = False\<rparr>,
                      \<lparr>entry_Name = ''metadata.json'', entry_IsDir = False\<rparr>]\<rparr>"

definition folder_complete :: folder where
  "folder_complete =
     \<lparr>metadata_json = Decodes example_metadata,
      ReadDir = Some [\<lparr>entry_Name = ''1.png'', entry_IsDir = False\<rparr>,
                      \<lparr>entry_Name = ''2.jpg'', entry_IsDir = False\<rparr>,
                      \<lparr>entry_Name = ''3.png'', entry_IsDir = False\<rparr>,
                      \<lparr>entry_Name = ''extras'', entry_IsDir = True\<rparr>,
                      \<lparr>entry_Name = ''metadata.json'', entry_IsDir = False\<rparr>]\<rparr>"

text \<open>
  The filter clauses both statements of one search carry once their placeholders are
  bound: the LIKE pattern on title or subtitle, one EXISTS per tag, one NOT EXISTS per
  anti-tag.
\<close>

definition search_filters :: "string \<Rightarrow> string list \<Rightarrow> string list \<Rightarrow> clause list" where
  "search_filters query tagList antiTags =
     TitleOrSubtitleLike (''%'' @ escapeSqlLike query @ ''%'') (''%'' @ escapeSqlLike query @ ''%'')
       # map TagExists tagList @ map TagNotExists antiTags"

text \<open>What \<open>SearchDoujins\<close> makes of a fetched row: the row with its cover page.\<close>

definition entry_of :: "world \<Rightarrow> Doujins_row \<Rightarrow> Doujin" where
  "entry_of w row = to_Doujin row (select_cape_page w (Doujins_id row))"

text \<open>
  A store to search: Ammie with one session (token \<open>tok\<close>) and three doujins, of which
  only the first has a page numbered 1.
\<close>

definition search_store :: world where
  "search_store =
     \<lparr>Users = [\<lparr>Users_id = 1, username = ''Ammie'', password_hash = ''Y2F0czEyM3NhbHQ='',
                password_salt = ''salt'',
                session_tokens = SessionTokens_json [[''dG9rcw=='', ''s'']]\<rparr>],
      Doujins =
        [\<lparr>Doujins_id = 1, title = ''Alpha'', subtitle = ''first'',
          upload_date = ''2024-01-05T00:00:00Z'', external_rating = 3,
          tags = [''yuri'', ''romance''], characters = [], artists = [], groups = [],
          languages = [''english''], pages = 1\<rparr>,
         \<lparr>Doujins_id = 2, title = ''Beta'', subtitle = ''second'',
          upload_date = ''2024-03-01T00:00:00Z'', external_rating = 5,
          tags = [''yuri''], characters = [], artists = [], groups = [],
          languages = [''english''], pages = 0\<rparr>,
         \<lparr>Doujins_id = 3, title = ''Gamma'', subtitle = ''third'',
          upload_date = ''2023-12-31T00:00:00Z'', external_rating = 1,
          tags = [''comedy''], characters = [], artists = [], groups = [],
          languages = [''english''], pages = 0\<rparr>],
      DoujinPages = [\<lparr>DoujinPages_id = 10, doujin_id = 1, page_path = ''lib/a/1.png'',
                      page_number = 1\<rparr>],
      seq_Users = 1, seq_Doujins = 3, seq_DoujinPages = 10, faults = [], entropy = []\<rparr>"

section \<open>Properties\<close>

subsection \<open>The ledger\<close>

lemma randomString_Inr:
  "randomString n e = Inr (s, rest) \<longleftrightarrow>
     (n \<le> length e \<and> s = base64encode (take n e) \<and> rest = drop n e)"
  by (auto simp: randomString_def rand_Read_def)

lemma AppendNew_result:
  assumes "AppendNew L tokens e = (r, tokens', e')"
  shows "(tokens' = tokens \<and> (\<exists>err. r = Inl err)) \<or>
         (\<exists>s token salt. ToSlice tokens = Inr s \<and> r = Inr token \<and>
            randomString SessionTokenLength e = Inr (token, drop SessionTokenLength e) \<and>
            randomString PasswordSaltLength (drop SessionTokenLength e) = Inr (salt, e') \<and>
            tokens' = SessionTokens_json
              (if length (s @ [[hashToken L token salt, salt]]) \<ge> MaxTokensPerUser
               then drop 1 (s @ [[hashToken L token salt, salt]])
               else s @ [[hashToken L token salt, salt]]))"
  using assms
  by (auto simp: AppendNew_def NewSessionTokens_def Let_def randomString_Inr
      split: sum.splits prod.splits if_splits)

lemma find_token_bounds:
  "find_token L token s k = Inr (Some i) \<Longrightarrow> k \<le> i \<and> i < k + length s"
  by (induction s arbitrary: k) (auto split: if_splits, fastforce+)

lemma RemoveToken_result:
  assumes "RemoveToken L tokens token = (r, tokens')"
  shows "(tokens' = tokens \<and> (\<exists>err. r = Inl err)) \<or>
         (\<exists>s i. ToSlice tokens = Inr s \<and> r = Inr () \<and> i < length s \<and>
            find_token L token s 0 = Inr (Some i) \<and>
            tokens' = SessionTokens_json (take i s @ drop (i + 1) s))"
  using assms
  by (auto simp: RemoveToken_def NewSessionTokens_def
      split: sum.splits option.splits if_splits dest: find_token_bounds)

lemma below_cap_AppendNew:
  assumes b: "below_cap tokens" and a: "AppendNew L tokens e = (r, tokens', e')"
  shows "below_cap tokens'"
  using AppendNew_result[OF a]
proof (elim disjE exE conjE)
  assume "tokens' = tokens"
  with b show ?thesis by simp
next
  fix s token salt
  assume "ToSlice tokens = Inr s"
    and "tokens' = SessionTokens_json
            (if length (s @ [[hashToken L token salt, salt]]) \<ge> MaxTokensPerUser
             then drop 1 (s @ [[hashToken L token salt, salt]])
             else s @ [[hashToken L token salt, salt]])"
  with b show ?thesis by (simp add: below_cap_def MaxTokensPerUser_def)
qed

lemma below_cap_RemoveToken:
  assumes b: "below_cap tokens"
  shows "below_cap (snd (RemoveToken L tokens token))"
proof -
  obtain r t' where a: "RemoveToken L tokens token = (r, t')"
    by (cases "RemoveToken L tokens token")
  from RemoveToken_result[OF a] have "below_cap t'"
  proof (elim disjE exE conjE)
    assume "t' = tokens"
    with b show ?thesis by simp
  next
    fix s i
    assume "ToSlice tokens = Inr s" and "i < length s"
      and "t' = SessionTokens_json (take i s @ drop (i + 1) s)"
    with b show ?thesis by (simp add: below_cap_def MaxTokensPerUser_def)
  qed
  with a show ?thesis by simp
qed

lemma below_cap_run_ops:
  "below_cap tokens \<Longrightarrow> below_cap (run_ops L ops tokens e)"
proof (induction ops arbitrary: tokens e)
  case Nil
  then show ?case by simp
next
  case (Cons op ops)
  show ?case
  proof (cases op)
    case OpAppendNew
    obtain r t' e' where a: "AppendNew L tokens e = (r, t', e')"
      by (cases "AppendNew L tokens e") auto
    with Cons OpAppendNew show ?thesis
      by (simp add: below_cap_AppendNew[OF Cons.prems a])
  next
    case (OpRemoveToken tok)
    with Cons show ?thesis by (simp add: below_cap_RemoveToken)
  qed
qed

lemmas ledger_eval =
  AppendNew_def randomString_def rand_Read_def hashToken_def example_lib_def
  NewSessionTokens_def SessionTokenLength_def PasswordSaltLength_def MaxTokensPerUser_def
  encodeURL_def RemoveToken_def HasToken_def

subsection \<open>Statements sent to the driver\<close>

lemma sql_step_fields [simp]:
  "Users (snd (sql_step w)) = Users w"
  "Doujins (snd (sql_step w)) = Doujins w"
  "DoujinPages (snd (sql_step w)) = DoujinPages w"
  "seq_Users (snd (sql_step w)) = seq_Users w"
  "seq_Doujins (snd (sql_step w)) = seq_Doujins w"
  "seq_DoujinPages (snd (sql_step w)) = seq_DoujinPages w"
  "entropy (snd (sql_step w)) = entropy w"
  by (simp_all add: sql_step_def split: list.splits)

lemma sql_step_no_faults: "faults w = [] \<Longrightarrow> sql_step w = (False, w)"
  by (simp add: sql_step_def)

lemma select_user_cong: "Users w' = Users w \<Longrightarrow> select_user w' name = select_user w name"
  by (simp add: select_user_def)

lemma select_user_in_set: "select_user w name = Some r \<Longrightarrow> r \<in> set (Users w)"
  by (auto simp: select_user_def find_Some_iff)

lemma store_ok_row:
  "store_ok w \<Longrightarrow> r \<in> set (Users w) \<Longrightarrow>
   wellformed_tokens (session_tokens r) \<and> Users_id r \<le> seq_Users w"
  by (simp add: store_ok_def list_all_iff)

subsection \<open>Scanning the ledger\<close>

lemma find_token_None_iff:
  "find_token L token s k = Inr None \<longleftrightarrow>
   (\<forall>t\<in>set s. 2 \<le> length t \<and> hashToken L token (t ! 1) \<noteq> t ! 0)"
  by (induction s arbitrary: k) auto

lemma find_token_Panic:
  "find_token L token s k = Inl err \<Longrightarrow> err = Panic \<and> \<not> list_all (\<lambda>t. length t = 2) s"
  by (induction s arbitrary: k) (auto split: if_splits)

lemma HasToken_error:
  "HasToken L tokens token = Inl err \<Longrightarrow> \<not> wellformed_tokens tokens"
  by (auto simp: HasToken_def wellformed_tokens_def split: sum.splits option.splits
      dest: find_token_Panic)

lemma authenticateUser_eq:
  "authenticateUser L w name token =
     ((if fst (sql_step w) then Inl ErrSqlDriver
       else case select_user w name of
              None \<Rightarrow> Inl DatabaseErrorInexistentUser
            | Some row \<Rightarrow>
                (case HasToken L (session_tokens row) token of
                   Inl err \<Rightarrow> Inl err
                 | Inr hasToken \<Rightarrow>
                     if hasToken then Inr (Users_id row) else Inl DatabaseErrorInvalidToken)),
      snd (sql_step w))"
  by (simp add: authenticateUser_def split_def select_user_cong[of "snd (sql_step w)" w]
      split: option.splits sum.splits)

subsection \<open>Usernames under NOCASE\<close>

lemma sqlite_lower_allowed:
  "c \<in> set allowedCharacters \<Longrightarrow> sqlite_lower c \<in> set allowedCharacters"
  by (auto simp: allowedCharacters_def sqlite_lower_def)

lemma sqlite_lower_changes: "sqlite_lower c \<noteq> c \<Longrightarrow> c \<in> set allowedCharacters"
  by (auto simp: sqlite_lower_def allowedCharacters_def split: option.splits if_splits)

lemma allowed_same_fold:
  assumes "c \<in> set allowedCharacters" and "sqlite_lower c' = sqlite_lower c"
  shows "c' \<in> set allowedCharacters"
proof (cases "sqlite_lower c' = c'")
  case True
  with assms sqlite_lower_allowed[of c] show ?thesis by simp
next
  case False
  then show ?thesis by (rule sqlite_lower_changes)
qed

lemma isUsernameValid_nocase:
  assumes "isUsernameValid name" and "nocase_eq name' name"
  shows "isUsernameValid name'"
proof -
  from assms(2) have m: "map sqlite_lower name' = map sqlite_lower name"
    by (simp add: nocase_eq_def)
  then have len: "length name' = length name"
    by (rule map_eq_imp_length_eq)
  have "\<forall>i<length name'. name' ! i \<in> set allowedCharacters"
  proof (intro allI impI)
    fix i assume i: "i < length name'"
    from m have "map sqlite_lower name' ! i = map sqlite_lower name ! i" by simp
    with i len have f: "sqlite_lower (name' ! i) = sqlite_lower (name ! i)" by simp
    from assms(1) i len have "name ! i \<in> set allowedCharacters"
      by (auto simp: isUsernameValid_def list_all_length split: if_splits)
    with f show "name' ! i \<in> set allowedCharacters" by (rule allowed_same_fold[rotated])
  qed
  with assms(1) len show ?thesis
    by (auto simp: isUsernameValid_def list_all_length split: if_splits)
qed

lemma find_append_list:
  "find P (xs @ ys) = (case find P xs of None \<Rightarrow> find P ys | Some x \<Rightarrow> Some x)"
  by (induction xs) auto

lemma find_map_keep:
  "(\<And>x. P (f x) = P x) \<Longrightarrow> find P (map f xs) = map_option f (find P xs)"
  by (induction xs) auto

lemma nocase_eq_trans_iff: "nocase_eq a b \<Longrightarrow> nocase_eq x a = nocase_eq x b"
  by (simp add: nocase_eq_def)

lemma select_user_nocase: "nocase_eq a b \<Longrightarrow> select_user w a = select_user w b"
  by (simp add: select_user_def nocase_eq_trans_iff)

lemma select_user_update:
  "select_user (update_session_tokens w st n) n' =
     map_option (\<lambda>r. if nocase_eq (username r) n then r\<lparr>session_tokens := st\<rparr> else r)
       (select_user w n')"
  unfolding select_user_def update_session_tokens_def
  by (simp, rule find_map_keep) simp

subsection \<open>Registration and login\<close>

lemma RegisterUser_fresh:
  assumes "isUsernameValid name" "isPasswordValid password" "faults w = []"
    "PasswordSaltLength \<le> length (entropy w)" "select_user w name = None"
  shows "RegisterUser L w name password =
           (Inr (), w\<lparr>entropy := drop PasswordSaltLength (entropy w),
                      Users := Users w @ [new_user_row L w name password],
                      seq_Users := seq_Users w + 1\<rparr>)"
  using assms
  by (simp add: RegisterUser_def sql_step_no_faults randomString_def rand_Read_def
      new_user_row_def Let_def)

lemma RegisterUser_taken:
  assumes "isUsernameValid name" "isPasswordValid password" "faults w = []"
    "select_user w name = Some row"
  shows "RegisterUser L w name password = (Inl DatabaseErrorExistentUser, w)"
  using assms by (simp add: RegisterUser_def sql_step_no_faults)

lemma length_base64encode: "length (base64encode bs) = 4 * ((length bs + 2) div 3)"
proof (induction bs rule: base64encode.induct)
  case (1 a b c rest)
  have "(length rest + 5) div 3 = Suc ((length rest + 2) div 3)" by arith
  with 1 show ?case by (simp add: Let_def add.commute)
qed (simp_all add: Let_def)

lemma AppendNew_below_cap:
  assumes "ToSlice tokens = Inr s" and "length s + 1 < MaxTokensPerUser"
    and "list_all (\<lambda>t. length t = 2) s"
    and "SessionTokenLength + PasswordSaltLength \<le> length e"
  shows "AppendNew L tokens e =
           (let token = base64encode (take SessionTokenLength e);
                salt = base64encode (take PasswordSaltLength (drop SessionTokenLength e))
            in (Inr token, SessionTokens_json (s @ [[hashToken L token salt, salt]]),
                drop (SessionTokenLength + PasswordSaltLength) e))"
  using assms
  by (simp add: AppendNew_def randomString_def rand_Read_def NewSessionTokens_def Let_def
      list_ex_iff list_all_iff add.commute)

subsection \<open>The base64 encoding is injective\<close>




















lemma quad_eq:
  "[a, b, c, d] @ xs = [a', b', c', d'] @ ys \<longleftrightarrow>
   a = a' \<and> b = b' \<and> c = c' \<and> d = d' \<and> xs = ys"
  by simp


subsection \<open>Logging in\<close>














subsection \<open>The import\<close>


lemma sql_step_only_faults: "\<exists>fs. snd (sql_step w) = w\<lparr>faults := fs\<rparr>"
  by (cases "faults w") (auto simp: sql_step_def intro: exI[of _ "[]"])

lemma import_entries_Inr:
  "import_entries L fp d es w tx acc = Inr (w', tx', ps) \<Longrightarrow>
   ps = acc @ page_numbers es \<and> (\<exists>fs. w' = w\<lparr>faults := fs\<rparr>)"
proof (induction es arbitrary: w tx acc)
  case Nil
  then show ?case by (auto simp: page_numbers_def intro: exI[of _ "faults w"])
next
  case (Cons e es)
  show ?case
  proof (cases "entry_IsDir e \<or> pageNameToPageNumber (entry_Name e) = - 1")
    case True
    with Cons.prems have "import_entries L fp d es w tx acc = Inr (w', tx', ps)"
      by (simp add: Let_def)
    from Cons.IH[OF this] True show ?thesis
      by (simp add: page_numbers_def)
  next
    case False
    obtain failed w1 where s: "sql_step w = (failed, w1)" by (cases "sql_step w")
    with sql_step_only_faults[of w] obtain f1 where w1: "w1 = w\<lparr>faults := f1\<rparr>" by auto
    from Cons.prems False s have nf: "\<not> failed" and
      rec: "import_entries L fp d es w1
              (tx_Insert tx d (path_Join L fp (entry_Name e)) (pageNameToPageNumber (entry_Name e)))
              (acc @ [pageNameToPageNumber (entry_Name e)]) = Inr (w', tx', ps)"
      by (auto simp: Let_def split: if_splits)
    from Cons.IH[OF rec] obtain fs where
      "ps = (acc @ [pageNameToPageNumber (entry_Name e)]) @ page_numbers es"
      and "w' = w1\<lparr>faults := fs\<rparr>" by auto
    with w1 False show ?thesis
      by (auto simp: page_numbers_def)
  qed
qed

lemma import_entries_Inl:
  "import_entries L fp d es w tx acc = Inl (err, w') \<Longrightarrow>
   err = ErrSqlDriver \<and> (\<exists>fs. w' = w\<lparr>faults := fs\<rparr>)"
proof (induction es arbitrary: w tx acc)
  case Nil
  then show ?case by simp
next
  case (Cons e es)
  show ?case
  proof (cases "entry_IsDir e \<or> pageNameToPageNumber (entry_Name e) = - 1")
    case True
    with Cons.prems have "import_entries L fp d es w tx acc = Inl (err, w')"
      by (simp add: Let_def)
    from Cons.IH[OF this] show ?thesis .
  next
    case False
    obtain failed w1 where s: "sql_step w = (failed, w1)" by (cases "sql_step w")
    with sql_step_only_faults[of w] obtain f1 where w1: "w1 = w\<lparr>faults := f1\<rparr>" by auto
    show ?thesis
    proof (cases failed)
      case True
      with Cons.prems False s have "err = ErrSqlDriver" "w' = w1" by (auto simp: Let_def)
      with w1 show ?thesis by auto
    next
      case nf: False
      with Cons.prems False s have
        rec: "import_entries L fp d es w1
              (tx_Insert tx d (path_Join L fp (entry_Name e)) (pageNameToPageNumber (entry_Name e)))
              (acc @ [pageNameToPageNumber (entry_Name e)]) = Inl (err, w')"
        by (auto simp: Let_def)
      from Cons.IH[OF rec] obtain fs where "err = ErrSqlDriver" "w' = w1\<lparr>faults := fs\<rparr>"
        by auto
      with w1 show ?thesis by auto
    qed
  qed
qed


lemma import_entries_no_faults:
  "faults w = [] \<Longrightarrow>
   \<exists>tx'. import_entries L fp d es w tx acc = Inr (w, tx', acc @ page_numbers es)"
proof (induction es arbitrary: tx acc)
  case Nil
  then show ?case by (simp add: page_numbers_def)
next
  case (Cons e es)
  show ?case
  proof (cases "entry_IsDir e \<or> pageNameToPageNumber (entry_Name e) = - 1")
    case True
    with Cons.IH[OF Cons.prems, of tx acc] show ?thesis
      by (auto simp: page_numbers_def Let_def)
  next
    case False
    with Cons.IH[OF Cons.prems,
        of "tx_Insert tx d (path_Join L fp (entry_Name e)) (pageNameToPageNumber (entry_Name e))"
           "acc @ [pageNameToPageNumber (entry_Name e)]"]
      Cons.prems
    show ?thesis
      by (auto simp: page_numbers_def Let_def sql_step_no_faults)
  qed
qed

lemma first_gap_None_iff:
  "first_gap i xs = None \<longleftrightarrow> xs = [i + 1 .. i + int (length xs)]"
proof (induction xs arbitrary: i)
  case Nil
  then show ?case by simp
next
  case (Cons x xs)
  have u: "[i + 1 .. i + int (length (x # xs))] = (i + 1) # [i + 1 + 1 .. i + 1 + int (length xs)]"
    by (subst upto_rec1) (simp_all add: add.assoc)
  show ?case
    unfolding u using Cons.IH[of "i + 1"] by auto
qed

lemma first_gap_Some:
  "first_gap i xs = Some (e, f) \<Longrightarrow>
   \<exists>k<length xs. e = i + int k + 1 \<and> f = xs ! k \<and> f \<noteq> e \<and> (\<forall>j<k. xs ! j = i + int j + 1)"
proof (induction xs arbitrary: i)
  case Nil
  then show ?case by simp
next
  case (Cons x xs)
  show ?case
  proof (cases "i + 1 \<noteq> x")
    case True
    with Cons.prems show ?thesis by (intro exI[of _ 0]) auto
  next
    case False
    with Cons.prems have "first_gap (i + 1) xs = Some (e, f)" by simp
    from Cons.IH[OF this] obtain k where
      k: "k < length xs" "e = i + 1 + int k + 1" "f = xs ! k" "f \<noteq> e"
         "\<forall>j<k. xs ! j = i + 1 + int j + 1"
      by blast
    have "\<forall>j<Suc k. (x # xs) ! j = i + int j + 1"
    proof (intro allI impI)
      fix j assume "j < Suc k"
      with False k(5) show "(x # xs) ! j = i + int j + 1"
        by (cases j) auto
    qed
    with k show ?thesis by (intro exI[of _ "Suc k"]) auto
  qed
qed


lemma faults_insert_doujin: "faults (snd (insert_doujin w m)) = faults w"
  by (simp add: insert_doujin_def Let_def)

lemma RegisterDoujin_no_faults:
  assumes md: "metadata_json dir = Decodes doujinMeta" and rd: "ReadDir dir = Some es"
    and nf: "faults w = []"
  shows "fst (RegisterDoujin L w dir fp) =
           (if int (length (page_numbers es)) < meta_Pages doujinMeta
            then Inl (ErrPagesMissing (int (length (page_numbers es))) (meta_Pages doujinMeta))
            else if int (length (page_numbers es)) > meta_Pages doujinMeta
            then Inl (ErrTooManyPages (int (length (page_numbers es))) (meta_Pages doujinMeta))
            else case first_gap 0 (sort (page_numbers es)) of
                   Some (expected, found) \<Rightarrow> Inl (ErrPagesNotSequential expected found)
                 | None \<Rightarrow> Inr ())"
proof -
  obtain doujinId w2 where ins: "insert_doujin w doujinMeta = (doujinId, w2)"
    by (cases "insert_doujin w doujinMeta")
  with faults_insert_doujin[of w doujinMeta] nf have nf2: "faults w2 = []" by simp
  from import_entries_no_faults[OF nf2, of L fp doujinId es "tx_Begin w2" "[]"]
  obtain tx' where
    imp: "import_entries L fp doujinId es w2 (tx_Begin w2) [] = Inr (w2, tx', page_numbers es)"
    by auto
  show ?thesis
    by (simp add: RegisterDoujin_def md rd sql_step_no_faults nf nf2 ins imp
        split: option.splits)
qed

lemma RegisterDoujin_Inr:
  assumes md: "metadata_json dir = Decodes doujinMeta" and rd: "ReadDir dir = Some es"
    and ok: "fst (RegisterDoujin L w dir fp) = Inr ()"
  shows "int (length (page_numbers es)) = meta_Pages doujinMeta \<and>
         first_gap 0 (sort (page_numbers es)) = None"
proof -
  obtain f1 w1 where s1: "sql_step w = (f1, w1)" by (cases "sql_step w")
  obtain doujinId w2 where ins: "insert_doujin w1 doujinMeta = (doujinId, w2)"
    by (cases "insert_doujin w1 doujinMeta")
  obtain f3 w3 where s3: "sql_step w2 = (f3, w3)" by (cases "sql_step w2")
  from ok have nf: "\<not> f1" "\<not> f3"
    by (auto simp: RegisterDoujin_def md rd s1 ins s3 split: if_splits)
  from ok nf obtain w4 tx ps where
    imp: "import_entries L fp doujinId es w3 (tx_Begin w3) [] = Inr (w4, tx, ps)"
    by (auto simp: RegisterDoujin_def md rd s1 ins s3 split: sum.splits)
  from import_entries_Inr[OF imp] have ps: "ps = page_numbers es" by simp
  from ok nf show ?thesis
    by (auto simp: RegisterDoujin_def md rd s1 ins s3 imp ps
        split: if_splits option.splits prod.splits)
qed

lemma insert_doujin_faults_commute:
  "insert_doujin (w\<lparr>faults := fs\<rparr>) m =
     (fst (insert_doujin w m), (snd (insert_doujin w m))\<lparr>faults := fs\<rparr>)"
  by (simp add: insert_doujin_def Let_def)

lemma RegisterDoujin_failure_world:
  assumes md: "metadata_json dir = Decodes doujinMeta"
    and s0: "\<not> fst (sql_step w)"
    and fail: "RegisterDoujin L w dir fp = (Inl err, w')"
  shows "\<exists>fs. w' = (snd (insert_doujin w doujinMeta))\<lparr>faults := fs\<rparr>"
proof -
  let ?base = "snd (insert_doujin w doujinMeta)"
  obtain w1 where s1: "sql_step w = (False, w1)"
    using s0 by (cases "sql_step w") auto
  with sql_step_only_faults[of w] obtain f1 where w1: "w1 = w\<lparr>faults := f1\<rparr>" by auto
  obtain doujinId w2 where ins: "insert_doujin w1 doujinMeta = (doujinId, w2)"
    by (cases "insert_doujin w1 doujinMeta")
  with w1 have w2: "w2 = ?base\<lparr>faults := f1\<rparr>"
    by (simp add: insert_doujin_faults_commute)
  show ?thesis
  proof (cases "ReadDir dir")
    case None
    with fail have "w' = w2" by (simp add: RegisterDoujin_def md s1 ins)
    with w2 show ?thesis by blast
  next
    case (Some es)
    obtain f3 w3 where s3: "sql_step w2 = (f3, w3)" by (cases "sql_step w2")
    with sql_step_only_faults[of w2] w2 obtain f3' where w3: "w3 = ?base\<lparr>faults := f3'\<rparr>"
      by auto
    show ?thesis
    proof (cases f3)
      case True
      with fail have "w' = w3" by (simp add: RegisterDoujin_def md s1 ins Some s3)
      with w3 show ?thesis by blast
    next
      case nf3: False
      show ?thesis
      proof (cases "import_entries L fp doujinId es w3 (tx_Begin w3) []")
        case (Inl a)
        obtain e4 w4 where a: "a = (e4, w4)" by (cases a)
        with fail nf3 Inl have "w' = w4"
          by (simp add: RegisterDoujin_def md s1 ins Some s3)
        moreover from import_entries_Inl[OF Inl[unfolded a]] w3
        obtain fs where "w4 = ?base\<lparr>faults := fs\<rparr>" by auto
        ultimately show ?thesis by blast
      next
        case (Inr b)
        obtain w4 tx ps where b: "b = (w4, tx, ps)" by (cases b)
        from import_entries_Inr[OF Inr[unfolded b]] w3
        obtain f4 where w4: "w4 = ?base\<lparr>faults := f4\<rparr>" by auto
        obtain f5 w5 where s5: "sql_step w4 = (f5, w5)" by (cases "sql_step w4")
        with sql_step_only_faults[of w4] w4 obtain f5' where w5: "w5 = ?base\<lparr>faults := f5'\<rparr>"
          by auto
        from fail nf3 Inr b s5 have "w' = w4 \<or> w' = w5"
          by (auto simp: RegisterDoujin_def md s1 ins Some s3
              split: if_splits option.splits prod.splits)
        with w4 w5 show ?thesis by blast
      qed
    qed
  qed
qed

lemma digit_table:
  "zip ''0123456789'' [0 ..< 10] =
     [(CHR ''0'', 0), (CHR ''1'', 1), (CHR ''2'', 2), (CHR ''3'', 3), (CHR ''4'', 4),
      (CHR ''5'', 5), (CHR ''6'', 6), (CHR ''7'', 7), (CHR ''8'', 8), (CHR ''9'', 9)]"
  by (simp add: upt_rec)

lemmas page_eval =
  page_numbers_def pageNameToPageNumber_def removeExtension_def path_Ext_def
  ParseUint32_def digit_value_def digit_table Let_def

lemma page_numbers_folder_missing: "page_numbers (the (ReadDir folder_missing)) = [1, 2]"
  by (simp add: folder_missing_def page_eval)

lemma page_numbers_folder_gap: "page_numbers (the (ReadDir folder_gap)) = [1, 2, 4]"
  by (simp add: folder_gap_def page_eval)

lemma page_numbers_folder_complete: "page_numbers (the (ReadDir folder_complete)) = [1, 2, 3]"
  by (simp add: folder_complete_def page_eval)

subsection \<open>The search\<close>


lemma foldl_pieces:
  "foldl (\<lambda>(b, p) tag. (b @ [X], p @ [ArgText tag])) (b0, p0) ts =
     (b0 @ map (\<lambda>t. X) ts, p0 @ map ArgText ts)"
  by (induction ts arbitrary: b0 p0) auto

lemma buildSearchQuery_eq:
  "buildSearchQuery q tagList antiTags pageSize pageNumber cnt =
     ([if cnt then SELECT_COUNT else SELECT_columns, FROM_Doujins_WHERE_title_or_subtitle_LIKE]
        @ map (\<lambda>t. AND_EXISTS_tag) tagList @ map (\<lambda>t. AND_NOT_EXISTS_tag) antiTags
        @ (if cnt then [] else [ORDER_BY_upload_date_DESC_LIMIT_OFFSET]),
      [ArgText (''%'' @ escapeSqlLike q @ ''%''), ArgText (''%'' @ escapeSqlLike q @ ''%'')]
        @ map ArgText tagList @ map ArgText antiTags
        @ (if cnt then [] else [ArgInt pageSize, ArgInt (pageSize * (pageNumber - 1))]))"
  by (simp add: buildSearchQuery_def foldl_pieces Let_def)

lemma bind_tags_exists:
  "bind_tags (map (\<lambda>t. AND_EXISTS_tag) ts @ ps) (map ArgText ts @ args) =
     (case bind_tags ps args of (cs, ps', args') \<Rightarrow> (map TagExists ts @ cs, ps', args'))"
  by (induction ts) (auto split: prod.splits)

lemma bind_tags_not_exists:
  "bind_tags (map (\<lambda>t. AND_NOT_EXISTS_tag) ts @ ps) (map ArgText ts @ args) =
     (case bind_tags ps args of (cs, ps', args') \<Rightarrow> (map TagNotExists ts @ cs, ps', args'))"
  by (induction ts) (auto split: prod.splits)

lemma bind_tags_end:
  "bind_tags [] args = ([], [], args)"
  "bind_tags [ORDER_BY_upload_date_DESC_LIMIT_OFFSET] args =
     ([], [ORDER_BY_upload_date_DESC_LIMIT_OFFSET], args)"
  by simp_all

lemma prepare_count:
  "(case buildSearchQuery q tagList antiTags pageSize pageNumber True of
      (ps, args) \<Rightarrow> prepare ps args) = Some (CountRows (search_filters q tagList antiTags))"
  by (simp add: buildSearchQuery_eq bind_tags_exists bind_tags_not_exists[where ps = "[]" and args = "[]", simplified]
      search_filters_def)

lemma prepare_select:
  "(case buildSearchQuery q tagList antiTags pageSize pageNumber False of
      (ps, args) \<Rightarrow> prepare ps args) =
     Some (SelectRows (search_filters q tagList antiTags) pageSize (pageSize * (pageNumber - 1)))"
  by (simp add: buildSearchQuery_eq bind_tags_exists bind_tags_not_exists bind_tags_end
      search_filters_def)


lemma run_count_build:
  "(case buildSearchQuery q tagList antiTags pageSize pageNumber True of
      (ps, args) \<Rightarrow> run_count table ps args) =
     Some (int (length (matching (search_filters q tagList antiTags) table)))"
  using prepare_count[of q tagList antiTags pageSize pageNumber]
  by (auto simp: run_count_def split: prod.splits)

lemma run_select_build:
  "(case buildSearchQuery q tagList antiTags pageSize pageNumber False of
      (ps, args) \<Rightarrow> run_select table ps args) =
     Some (limit_offset pageSize (pageSize * (pageNumber - 1))
             (order_by_upload_date_desc (matching (search_filters q tagList antiTags) table)))"
  using prepare_select[of q tagList antiTags pageSize pageNumber]
  by (auto simp: run_select_def split: prod.splits)

lemma scan_rows_no_faults:
  "faults w = [] \<Longrightarrow> scan_rows w rows acc = Inr (acc @ map (entry_of w) rows, w)"
  by (induction rows arbitrary: acc) (simp_all add: sql_step_no_faults entry_of_def)

lemma authenticateUser_no_faults:
  "faults w = [] \<Longrightarrow> authenticateUser L w name token = (fst (authenticateUser L w name token), w)"
  by (simp add: authenticateUser_eq sql_step_no_faults)

lemma SearchDoujins_no_faults:
  assumes nf: "faults w = []"
    and au: "fst (authenticateUser L w name token) = Inr userId"
    and ps: "1 \<le> pageSize" "pageSize \<le> 100" and pn: "1 \<le> pageNumber"
  shows "fst (SearchDoujins L w name token q tagList antiTags pageSize pageNumber) =
           (let found = matching (search_filters q tagList antiTags) (Doujins w);
                resultsCount = int (length found);
                totalPages = \<lceil>real_of_int resultsCount / real_of_int pageSize\<rceil>
            in if resultsCount < 1 then Inr \<lparr>Entries = [], TotalPages = 0\<rparr>
               else if pageNumber > totalPages then Inl DatabaseErrorInvalidPageNumber
               else Inr \<lparr>Entries =
                          map (entry_of w)
                            (take (nat pageSize)
                               (drop (nat (pageSize * (pageNumber - 1)))
                                  (order_by_upload_date_desc found))),
                        TotalPages = totalPages\<rparr>)"
proof -
  have a: "authenticateUser L w name token = (Inr userId, w)"
    using authenticateUser_no_faults[OF nf, of L name token] au by simp
  obtain cq cp where c: "buildSearchQuery q tagList antiTags pageSize pageNumber True = (cq, cp)"
    by (cases "buildSearchQuery q tagList antiTags pageSize pageNumber True")
  obtain sq sp where s: "buildSearchQuery q tagList antiTags pageSize pageNumber False = (sq, sp)"
    by (cases "buildSearchQuery q tagList antiTags pageSize pageNumber False")
  have rc: "run_count (Doujins w) cq cp =
              Some (int (length (matching (search_filters q tagList antiTags) (Doujins w))))"
    using run_count_build[where q = q and tagList = tagList and antiTags = antiTags
        and pageSize = pageSize and pageNumber = pageNumber and table = "Doujins w"] c
    by simp
  have rs: "run_select (Doujins w) sq sp =
              Some (limit_offset pageSize (pageSize * (pageNumber - 1))
                (order_by_upload_date_desc (matching (search_filters q tagList antiTags) (Doujins w))))"
    using run_select_build[where q = q and tagList = tagList and antiTags = antiTags
        and pageSize = pageSize and pageNumber = pageNumber and table = "Doujins w"] s
    by simp
  have lo: "\<And>xs :: Doujins_row list. limit_offset pageSize (pageSize * (pageNumber - 1)) xs =
              take (nat pageSize) (drop (nat (pageSize * (pageNumber - 1))) xs)"
    using ps by (simp add: limit_offset_def Let_def)
  show ?thesis
    using ps pn
    by (simp add: SearchDoujins_def a c s rc rs sql_step_no_faults nf scan_rows_no_faults lo
        Let_def)
qed







lemma ceiling_pages:
  fixes c pageSize :: int
  assumes "0 < pageSize"
  shows "\<lceil>real_of_int c / real_of_int pageSize\<rceil> = (c + pageSize - 1) div pageSize"
proof -
  let ?q = "c div pageSize" and ?r = "c mod pageSize"
  have c: "c = pageSize * ?q + ?r" by simp
  have r: "0 \<le> ?r" "?r < pageSize" using assms by simp_all
  have up: "\<lceil>real_of_int c / real_of_int pageSize\<rceil> = - (- c div pageSize)"
    by (rule ceiling_divide_eq_div)
  show ?thesis
  proof (cases "?r = 0")
    case True
    then have "- c div pageSize = - ?q"
      using assms by (simp add: zdiv_zminus1_eq_if)
    moreover have "(c + pageSize - 1) div pageSize = ?q"
    proof -
      have "c + pageSize - 1 = pageSize * ?q + (pageSize - 1)" using c True by simp
      then have "(c + pageSize - 1) div pageSize = ?q + (pageSize - 1) div pageSize"
        using assms by (simp only: div_mult_self4)
      moreover have "(pageSize - 1) div pageSize = 0" using assms by (simp add: div_pos_pos_trivial)
      ultimately show ?thesis by simp
    qed
    ultimately show ?thesis using up by simp
  next
    case False
    then have "- c div pageSize = - ?q - 1"
      using assms by (simp add: zdiv_zminus1_eq_if)
    moreover have "(c + pageSize - 1) div pageSize = ?q + 1"
    proof -
      have "c + pageSize - 1 = pageSize * (?q + 1) + (?r - 1)"
        using c by (simp add: algebra_simps)
      then have "(c + pageSize - 1) div pageSize = (?q + 1) + (?r - 1) div pageSize"
        using assms by (simp only: div_mult_self4)
      moreover have "(?r - 1) div pageSize = 0"
        using r False by (simp add: div_pos_pos_trivial)
      ultimately show ?thesis by simp
    qed
    ultimately show ?thesis using up by simp
  qed
qed

lemma sql_like_percent: "sql_like ''%'' s"
  by (induction s) simp_all

lemma sql_like_percent2: "sql_like ''%%'' s"
  by (induction s) (simp_all add: sql_like_percent)

lemma search_store_auth:
  "fst (authenticateUser example_lib search_store ''ammie'' ''tok'') = Inr 1"
  by (simp add: authenticateUser_eq sql_step_def search_store_def select_user_def nocase_eq_def
      sqlite_lower_def HasToken_def hashToken_def example_lib_def encodeURL_def)



lemma scan_rows_tags:
  "scan_rows w rows acc = Inr (ds, w') \<Longrightarrow>
   map Doujin_Tags ds = map Doujin_Tags acc @ map tags rows"
proof (induction rows arbitrary: w acc)
  case Nil
  then show ?case by simp
next
  case (Cons row rows)
  obtain f w1 where s: "sql_step w = (f, w1)" by (cases "sql_step w")
  with Cons.prems have
    "scan_rows w1 rows (acc @ [to_Doujin row (select_cape_page w1 (Doujins_id row))]) = Inr (ds, w')"
    by (auto split: if_splits)
  from Cons.IH[OF this] show ?case by (simp add: to_Doujin_def)
qed

lemma set_limit_offset: "set (limit_offset l off xs) \<subseteq> set xs"
  by (auto simp: limit_offset_def Let_def dest: in_set_takeD in_set_dropD)

lemma set_order_by_upload_date_desc: "set (order_by_upload_date_desc xs) = set xs"
  by (simp add: order_by_upload_date_desc_def)

lemma matching_search_filters:
  "row \<in> set (matching (search_filters q tagList antiTags) table) \<longleftrightarrow>
     row \<in> set table \<and>
     (sql_like (''%'' @ escapeSqlLike q @ ''%'') (title row) \<or>
      sql_like (''%'' @ escapeSqlLike q @ ''%'') (subtitle row)) \<and>
     (\<forall>t\<in>set tagList. t \<in> set (tags row)) \<and>
     (\<forall>t\<in>set antiTags. t \<notin> set (tags row))"
  by (auto simp del: sql_like.simps
      simp add: matching_def search_filters_def list_all_iff ball_Un)

lemma SearchDoujins_entries:
  assumes ok: "SearchDoujins L w name token q tagList antiTags pageSize pageNumber = (Inr res, w')"
  shows "\<exists>rows. set rows \<subseteq> set (matching (search_filters q tagList antiTags) (Doujins w)) \<and>
                map Doujin_Tags (Entries res) = map tags rows"
proof -
  let ?F = "search_filters q tagList antiTags"
  obtain a w1 where au: "authenticateUser L w name token = (a, w1)"
    by (cases "authenticateUser L w name token")
  then have d1: "Doujins w1 = Doujins w"
    by (auto simp: authenticateUser_eq)
  obtain cq cp where c: "buildSearchQuery q tagList antiTags pageSize pageNumber True = (cq, cp)"
    by (cases "buildSearchQuery q tagList antiTags pageSize pageNumber True")
  obtain sq sp where s: "buildSearchQuery q tagList antiTags pageSize pageNumber False = (sq, sp)"
    by (cases "buildSearchQuery q tagList antiTags pageSize pageNumber False")
  obtain f2 w2 where s2: "sql_step w1 = (f2, w2)" by (cases "sql_step w1")
  then have d2: "Doujins w2 = Doujins w"
    using sql_step_fields(2)[of w1] d1 by simp
  obtain f3 w3 where s3: "sql_step w2 = (f3, w3)" by (cases "sql_step w2")
  then have d3: "Doujins w3 = Doujins w"
    using sql_step_fields(2)[of w2] d2 by simp
  have rs: "run_select (Doujins w3) sq sp =
              Some (limit_offset pageSize (pageSize * (pageNumber - 1))
                (order_by_upload_date_desc (matching ?F (Doujins w))))"
    using run_select_build[where q = q and tagList = tagList and antiTags = antiTags
        and pageSize = pageSize and pageNumber = pageNumber and table = "Doujins w"] s d3
    by simp
  let ?rows = "limit_offset pageSize (pageSize * (pageNumber - 1))
                (order_by_upload_date_desc (matching ?F (Doujins w)))"
  have sub: "set ?rows \<subseteq> set (matching ?F (Doujins w))"
    using set_limit_offset[of pageSize "pageSize * (pageNumber - 1)"
        "order_by_upload_date_desc (matching ?F (Doujins w))"]
    by (simp add: set_order_by_upload_date_desc)
  from ok have "Entries res = [] \<or> (\<exists>w4. scan_rows w3 ?rows [] = Inr (Entries res, w4))"
    by (auto simp: SearchDoujins_def au c s s2 s3 rs Let_def
        split: sum.splits if_splits option.splits prod.splits)
  then show ?thesis
  proof
    assume "Entries res = []"
    then show ?thesis by (intro exI[of _ "[]"]) simp
  next
    assume "\<exists>w4. scan_rows w3 ?rows [] = Inr (Entries res, w4)"
    then obtain w4 where "scan_rows w3 ?rows [] = Inr (Entries res, w4)" by blast
    from scan_rows_tags[OF this] sub show ?thesis by (intro exI[of _ ?rows]) simp
  qed
qed

lemma SearchDoujins_entries_tags:
  assumes ok: "SearchDoujins L w name token q tagList antiTags pageSize pageNumber = (Inr res, w')"
    and d: "d \<in> set (Entries res)"
  shows "(\<forall>t\<in>set tagList. t \<in> set (Doujin_Tags d)) \<and>
         (\<forall>t\<in>set antiTags. t \<notin> set (Doujin_Tags d))"
proof -
  from SearchDoujins_entries[OF ok] obtain rows where
    sub: "set rows \<subseteq> set (matching (search_filters q tagList antiTags) (Doujins w))" and
    m: "map Doujin_Tags (Entries res) = map tags rows"
    by blast
  from d have "Doujin_Tags d \<in> set (map Doujin_Tags (Entries res))" by simp
  with m obtain row where row: "row \<in> set rows" "Doujin_Tags d = tags row" by auto
  with sub have "row \<in> set (matching (search_filters q tagList antiTags) (Doujins w))" by blast
  then show ?thesis
    unfolding matching_search_filters row(2) by blast
qed


lemma search_returns_matching_row:
  assumes nf: "faults w = []"
    and au: "fst (authenticateUser L w name token) = Inr userId"
    and ps: "1 \<le> pageSize" "pageSize \<le> 100"
    and fits: "int (length (Doujins w)) \<le> pageSize"
    and row: "row \<in> set (matching (search_filters q tagList antiTags) (Doujins w))"
  shows "\<exists>r. fst (SearchDoujins L w name token q tagList antiTags pageSize 1) = Inr r \<and>
             entry_of w row \<in> set (Entries r)"
proof -
  let ?found = "matching (search_filters q tagList antiTags) (Doujins w)"
  let ?ordered = "order_by_upload_date_desc ?found"
  let ?total = "\<lceil>real_of_int (int (length ?found)) / real_of_int pageSize\<rceil>"
  have pos: "0 < length ?found"
    using row by (cases ?found) auto
  have le: "length ?found \<le> length (Doujins w)"
    by (simp add: matching_def)
  have lo: "length ?ordered = length ?found"
    by (simp add: order_by_upload_date_desc_def)
  have "?total = (int (length ?found) + pageSize - 1) div pageSize"
    using ps(1) by (intro ceiling_pages) simp
  then have t: "?total = (int (length ?found) + pageSize - 1) div pageSize" .
  have "pageSize \<le> int (length ?found) + pageSize - 1"
    using pos by simp
  with ps(1) have "0 < (int (length ?found) + pageSize - 1) div pageSize"
    using pos_imp_zdiv_pos_iff[of pageSize "int (length ?found) + pageSize - 1"] by simp
  with t have tot: "1 \<le> ?total" by simp
  have all: "take (nat pageSize) ?ordered = ?ordered"
    using fits le lo by simp
  from SearchDoujins_no_faults[OF nf au ps, of 1 q tagList antiTags] pos tot
  have "fst (SearchDoujins L w name token q tagList antiTags pageSize 1) =
          Inr \<lparr>Entries = map (entry_of w) ?ordered, TotalPages = ?total\<rparr>"
    by (simp add: Let_def all del: of_nat_less_0_iff)
  moreover have "entry_of w row \<in> set (map (entry_of w) ?ordered)"
    using row by (simp add: set_order_by_upload_date_desc)
  ultimately show ?thesis by simp
qed

subsection \<open>Every write keeps the store well-formed\<close>

lemma NewSessionTokens_wellformed:
  "NewSessionTokens s = Inr st \<Longrightarrow> wellformed_tokens st"
  by (auto simp: NewSessionTokens_def wellformed_tokens_def list_all_iff list_ex_iff
      split: if_splits)

lemma AppendNew_wellformed:
  "AppendNew L tokens e = (Inr token, st, e') \<Longrightarrow> wellformed_tokens st"
  by (auto simp: AppendNew_def Let_def split: sum.splits prod.splits
      dest: NewSessionTokens_wellformed)

lemma RemoveToken_wellformed:
  "RemoveToken L tokens token = (Inr u, st) \<Longrightarrow> wellformed_tokens st"
  by (auto simp: RemoveToken_def split: sum.splits option.splits
      dest: NewSessionTokens_wellformed)

lemma AppendNew_wellformed_proj:
  "Inr token = fst (AppendNew L tokens e) \<Longrightarrow>
   wellformed_tokens (fst (snd (AppendNew L tokens e)))"
  by (cases "AppendNew L tokens e") (auto dest: AppendNew_wellformed)

lemma RemoveToken_wellformed_proj:
  "Inr u = fst (RemoveToken L tokens token) \<Longrightarrow>
   wellformed_tokens (snd (RemoveToken L tokens token))"
  by (cases "RemoveToken L tokens token") (auto dest: RemoveToken_wellformed)

lemma store_ok_faults [simp]: "store_ok (w\<lparr>faults := fs\<rparr>) = store_ok w"
  by (simp add: store_ok_def)

lemma store_ok_entropy [simp]: "store_ok (w\<lparr>entropy := e\<rparr>) = store_ok w"
  by (simp add: store_ok_def)

lemma store_ok_sql_step: "store_ok (snd (sql_step w)) = store_ok w"
  by (simp add: store_ok_def)

lemma store_ok_update:
  "store_ok w \<Longrightarrow> wellformed_tokens st \<Longrightarrow> store_ok (update_session_tokens w st name)"
  by (auto simp: store_ok_def update_session_tokens_def list_all_iff)

lemma store_ok_RegisterUser:
  assumes "store_ok w" and "RegisterUser L w name password = (r, w')"
  shows "store_ok w'"
proof -
  obtain f1 w1 where s1: "sql_step w = (f1, w1)" by (cases "sql_step w")
  with store_ok_sql_step[of w] assms(1) have ok1: "store_ok w1" by simp
  obtain f3 w3 where s3: "sql_step (w1\<lparr>entropy := drop PasswordSaltLength (entropy w1)\<rparr>) = (f3, w3)"
    by (cases "sql_step (w1\<lparr>entropy := drop PasswordSaltLength (entropy w1)\<rparr>)")
  with store_ok_sql_step[of "w1\<lparr>entropy := drop PasswordSaltLength (entropy w1)\<rparr>"] ok1
  have ok3: "store_ok w3" by simp
  have grow: "\<And>row. wellformed_tokens (session_tokens row) \<Longrightarrow> Users_id row = seq_Users w3 + 1 \<Longrightarrow>
                store_ok (w3\<lparr>Users := Users w3 @ [row], seq_Users := seq_Users w3 + 1\<rparr>)"
    using ok3 by (auto simp: store_ok_def list_all_iff)
  have e: "wellformed_tokens SessionTokens_empty"
    by (simp add: wellformed_tokens_def)
  from assms(2) show ?thesis
    using assms(1) ok1 ok3 grow e
    by (auto simp: RegisterUser_def s1 s3 randomString_def rand_Read_def Let_def
        split: if_splits option.splits sum.splits prod.splits)
qed

lemma store_ok_LoginUser:
  assumes "store_ok w" and "LoginUser L w name password = (r, w')"
  shows "store_ok w'"
proof -
  obtain f1 w1 where s1: "sql_step w = (f1, w1)" by (cases "sql_step w")
  with store_ok_sql_step[of w] assms(1) have ok1: "store_ok w1" by simp
  have step: "\<And>x. store_ok x \<Longrightarrow> store_ok (snd (sql_step x))"
    by (simp add: store_ok_sql_step)
  from assms(2) show ?thesis
    using ok1
    by (auto simp: LoginUser_def s1 Let_def split_def
        split: if_splits option.splits sum.splits prod.splits
        intro!: store_ok_update step AppendNew_wellformed_proj)
qed

lemma store_ok_LogoutUser:
  assumes "store_ok w" and "LogoutUser L w name token = (r, w')"
  shows "store_ok w'"
proof -
  obtain f1 w1 where s1: "sql_step w = (f1, w1)" by (cases "sql_step w")
  with store_ok_sql_step[of w] assms(1) have ok1: "store_ok w1" by simp
  have step: "\<And>x. store_ok x \<Longrightarrow> store_ok (snd (sql_step x))"
    by (simp add: store_ok_sql_step)
  from assms(2) show ?thesis
    using ok1
    by (auto simp: LogoutUser_def s1 Let_def split_def
        split: if_splits option.splits sum.splits prod.splits
        intro!: store_ok_update step RemoveToken_wellformed_proj)
qed



text \<open>
  C2. Starting from the empty session-token list, after every sequence of \<open>AppendNew\<close> and
  \<open>RemoveToken\<close> calls the stored list decodes and holds at most \<open>MaxTokensPerUser - 1\<close>
  entries, so it never holds \<open>MaxTokensPerUser\<close> of them. The reason is the second
  conjunct: a successful \<open>AppendNew\<close> appends the new (hash, salt) pair and then drops
  the first entry whenever the resulting length is at least \<open>MaxTokensPerUser\<close>.
\<close>

theorem ledger_from_empty_stays_below_cap:
  "(\<exists>s. ToSlice (run_ops L ops SessionTokens_empty tape) = Inr s \<and>
        length s \<le> MaxTokensPerUser - 1 \<and> length s \<noteq> MaxTokensPerUser) \<and>
   (\<forall>tokens token tokens' tape'.
      AppendNew L tokens tape = (Inr token, tokens', tape') \<longrightarrow>
      (\<exists>s salt. ToSlice tokens = Inr s \<and>
         ToSlice tokens' =
           Inr (if length (s @ [[hashToken L token salt, salt]]) \<ge> MaxTokensPerUser
                then drop 1 (s @ [[hashToken L token salt, salt]])
                else s @ [[hashToken L token salt, salt]])))"
proof (intro conjI allI impI)
  have "below_cap SessionTokens_empty"
    by (simp add: below_cap_def)
  then have "below_cap (run_ops L ops SessionTokens_empty tape)"
    by (rule below_cap_run_ops)
  then show "\<exists>s. ToSlice (run_ops L ops SessionTokens_empty tape) = Inr s \<and>
        length s \<le> MaxTokensPerUser - 1 \<and> length s \<noteq> MaxTokensPerUser"
    by (auto simp: below_cap_def MaxTokensPerUser_def split: sum.splits)
next
  fix tokens token tokens' tape'
  assume a: "AppendNew L tokens tape = (Inr token, tokens', tape')"
  from AppendNew_result[OF a]
  show "\<exists>s salt. ToSlice tokens = Inr s \<and>
         ToSlice tokens' =
           Inr (if length (s @ [[hashToken L token salt, salt]]) \<ge> MaxTokensPerUser
                then drop 1 (s @ [[hashToken L token salt, salt]])
                else s @ [[hashToken L token salt, salt]])"
    by (elim disjE exE conjE) (simp, metis ToSlice.simps(2) sum.inject(2))
qed

theorem ledger_from_empty_stays_below_cap_witness:
  "AppendNew example_lib SessionTokens_empty ''0123456789abcdefghijklmnopqrstuvwxyzABCDEFGHIJ'' =
     (Inr ''MDEyMzQ1Njc4OWFiY2RlZmdoaWprbG1ub3BxcnN0'',
      SessionTokens_json
        [[''TURFeU16UTFOamM0T1dGaVkyUmxabWRvYVdwcmJHMXViM0J4Y25OMGRYWjNlSGw2UVVKRFJFVkdSMGhKU2c9PQ=='',
          ''dXZ3eHl6QUJDREVGR0hJSg=='']],
      []) \<and>
   (\<exists>s. ToSlice (run_ops example_lib [OpAppendNew, OpRemoveToken ''zz'', OpAppendNew]
                  SessionTokens_empty
                  ''0123456789abcdefghijklmnopqrstuvwxyzABCDEFGHIJ0123456789abcdefghijklmnopqrstuvwxyzABCDEFGHIJ'')
          = Inr s \<and>
        length s = 2 \<and> length s \<le> MaxTokensPerUser - 1)"
proof -
  have e1: "AppendNew example_lib SessionTokens_empty
              ''0123456789abcdefghijklmnopqrstuvwxyzABCDEFGHIJ'' =
     (Inr ''MDEyMzQ1Njc4OWFiY2RlZmdoaWprbG1ub3BxcnN0'',
      SessionTokens_json
        [[''TURFeU16UTFOamM0T1dGaVkyUmxabWRvYVdwcmJHMXViM0J4Y25OMGRYWjNlSGw2UVVKRFJFVkdSMGhKU2c9PQ=='',
          ''dXZ3eHl6QUJDREVGR0hJSg=='']],
      [])"
    by (simp add: ledger_eval)
  have e2: "length (case ToSlice (run_ops example_lib [OpAppendNew, OpRemoveToken ''zz'', OpAppendNew]
                  SessionTokens_empty
                  ''0123456789abcdefghijklmnopqrstuvwxyzABCDEFGHIJ0123456789abcdefghijklmnopqrstuvwxyzABCDEFGHIJ'')
               of Inr s \<Rightarrow> s | Inl err \<Rightarrow> []) = 2"
    by (simp add: ledger_eval)
  from ledger_from_empty_stays_below_cap
         [of example_lib "[OpAppendNew, OpRemoveToken ''zz'', OpAppendNew]"
            "''0123456789abcdefghijklmnopqrstuvwxyzABCDEFGHIJ0123456789abcdefghijklmnopqrstuvwxyzABCDEFGHIJ''"]
  obtain s where
    s: "ToSlice (run_ops example_lib [OpAppendNew, OpRemoveToken ''zz'', OpAppendNew]
                  SessionTokens_empty
                  ''0123456789abcdefghijklmnopqrstuvwxyzABCDEFGHIJ0123456789abcdefghijklmnopqrstuvwxyzABCDEFGHIJ'')
          = Inr s"
    and le: "length s \<le> MaxTokensPerUser - 1"
    by blast
  from e2 s have "length s = 2" by simp
  with e1 s le show ?thesis by blast
qed

text \<open>
  C7. For every valid username and valid password, \<open>RegisterUser\<close> on a store that holds
  no user of that name (and whose driver and entropy source do not fail) succeeds and
  inserts one row with an empty session list. A second \<open>RegisterUser\<close> with the same
  name in any casing, whatever valid password it brings, returns \<open>ExistentUser\<close> and
  returns the world it was given: no row is added and no row is changed.
\<close>

theorem register_same_name_twice:
  assumes "isUsernameValid name" and "isPasswordValid password" and "isPasswordValid password'"
    and "nocase_eq name' name"
    and "faults w = []" and "PasswordSaltLength \<le> length (entropy w)"
    and "select_user w name = None"
  shows "\<exists>w1 row. RegisterUser L w name password = (Inr (), w1) \<and>
           Users w1 = Users w @ [row] \<and> username row = name \<and>
           session_tokens row = SessionTokens_empty \<and>
           RegisterUser L w1 name' password' = (Inl DatabaseErrorExistentUser, w1)"
proof -
  let ?row = "new_user_row L w name password"
  let ?w1 = "w\<lparr>entropy := drop PasswordSaltLength (entropy w),
               Users := Users w @ [?row], seq_Users := seq_Users w + 1\<rparr>"
  have r1: "RegisterUser L w name password = (Inr (), ?w1)"
    using assms by (simp add: RegisterUser_fresh)
  have v: "isUsernameValid name'"
    using assms(1,4) by (rule isUsernameValid_nocase)
  have "select_user ?w1 name = Some ?row"
    using assms(7) by (simp add: select_user_def find_append_list new_user_row_def nocase_eq_def)
  then have "select_user ?w1 name' = Some ?row"
    using select_user_nocase[OF assms(4), of ?w1] by simp
  then have r2: "RegisterUser L ?w1 name' password' = (Inl DatabaseErrorExistentUser, ?w1)"
    using v assms(3,5) by (intro RegisterUser_taken) simp_all
  from r1 r2 show ?thesis
    by (intro exI[of _ ?w1] exI[of _ ?row]) (simp add: new_user_row_def)
qed

theorem register_same_name_twice_witness:
  "\<exists>w1 row. RegisterUser example_lib fresh_store ''Ammie'' ''cats123'' = (Inr (), w1) \<and>
     Users w1 = Users fresh_store @ [row] \<and> username row = ''Ammie'' \<and>
     session_tokens row = SessionTokens_empty \<and>
     RegisterUser example_lib w1 ''aMMIE'' ''dogs456'' = (Inl DatabaseErrorExistentUser, w1)"
proof -
  have "isUsernameValid ''Ammie''" "isPasswordValid ''cats123''" "isPasswordValid ''dogs456''"
    by (simp_all add: isUsernameValid_def isPasswordValid_def allowedCharacters_def)
  moreover have "nocase_eq ''aMMIE'' ''Ammie''"
    by (simp add: nocase_eq_def sqlite_lower_def)
  moreover have "faults fresh_store = []" "PasswordSaltLength \<le> length (entropy fresh_store)"
    "select_user fresh_store ''Ammie'' = None"
    by (simp_all add: fresh_store_def PasswordSaltLength_def select_user_def)
  ultimately show ?thesis
    by (rule register_same_name_twice)
qed

text \<open>
  C8. For every existing user and every token whose salted hash matches none of the
  user's stored (hash, salt) entries, \<open>LogoutUser\<close> (its SELECT not failing in the
  driver) returns \<open>InvalidToken\<close> and leaves the \<open>Users\<close> table, and with it the user's
  stored session-token list, exactly as it was.
\<close>

theorem logout_unknown_token_keeps_ledger:
  assumes "\<not> fst (sql_step w)"
    and "select_user w name = Some row"
    and "ToSlice (session_tokens row) = Inr entries"
    and "\<forall>t\<in>set entries. 2 \<le> length t \<and> hashToken L token (t ! 1) \<noteq> t ! 0"
  shows "fst (LogoutUser L w name token) = Inl DatabaseErrorInvalidToken \<and>
         Users (snd (LogoutUser L w name token)) = Users w"
proof -
  obtain w1 where s: "sql_step w = (False, w1)" and u: "Users w1 = Users w"
    using assms(1) sql_step_fields(1)[of w] by (cases "sql_step w") auto
  have sel: "select_user w1 name = Some row"
    using assms(2) u by (simp add: select_user_def)
  have "find_token L token entries 0 = Inr None"
    using assms(4) by (simp add: find_token_None_iff)
  then have rm: "RemoveToken L (session_tokens row) token =
              (Inl SessionTokensErrorUnknownToken, session_tokens row)"
    using assms(3) by (simp add: RemoveToken_def)
  show ?thesis
    by (simp add: LogoutUser_def s sel rm u)
qed

theorem logout_unknown_token_keeps_ledger_witness:
  "fst (LogoutUser example_lib ammie_store ''AMMIE'' ''zz'') = Inl DatabaseErrorInvalidToken \<and>
   Users (snd (LogoutUser example_lib ammie_store ''AMMIE'' ''zz'')) = Users ammie_store \<and>
   hashToken example_lib ''zz'' ''s'' = ''enpz''"
proof -
  have h: "hashToken example_lib ''zz'' ''s'' = ''enpz''"
    by (simp add: hashToken_def example_lib_def encodeURL_def)
  have "\<not> fst (sql_step ammie_store)"
    by (simp add: sql_step_def ammie_store_def)
  moreover have "select_user ammie_store ''AMMIE'' = Some (hd (Users ammie_store))"
    by (simp add: select_user_def ammie_store_def nocase_eq_def sqlite_lower_def)
  moreover have "ToSlice (session_tokens (hd (Users ammie_store))) = Inr [[''dG9rcw=='', ''s'']]"
    by (simp add: ammie_store_def)
  moreover have "\<forall>t\<in>set [[''dG9rcw=='', ''s'']].
                   2 \<le> length t \<and> hashToken example_lib ''zz'' (t ! 1) \<noteq> t ! 0"
    by (simp add: h)
  ultimately have "fst (LogoutUser example_lib ammie_store ''AMMIE'' ''zz'') =
                     Inl DatabaseErrorInvalidToken \<and>
         Users (snd (LogoutUser example_lib ammie_store ''AMMIE'' ''zz'')) = Users ammie_store"
    by (rule logout_unknown_token_keeps_ledger)
  with h show ?thesis by simp
qed

text \<open>
  C9. On a store without a user named Ammie (driver and entropy source not failing, row
  ids not above the counter), registering \<open>Ammie\<close> with password \<open>cats123\<close> and logging
  in succeed; the session token returned is at least 40 characters long (it is the
  base64 text of 30 bytes); and \<open>GetUsername\<close> called with the lower-cased name \<open>ammie\<close>
  and that token authenticates and returns exactly \<open>Ammie\<close>, the casing stored at
  registration.
\<close>

theorem ammie_scenario:
  assumes "faults w = []"
    and "PasswordSaltLength + SessionTokenLength + PasswordSaltLength \<le> length (entropy w)"
    and "select_user w ''Ammie'' = None"
    and "\<forall>r\<in>set (Users w). Users_id r \<le> seq_Users w"
  shows "\<exists>w1 token w2 w3.
           RegisterUser L w ''Ammie'' ''cats123'' = (Inr (), w1) \<and>
           LoginUser L w1 ''Ammie'' ''cats123'' = (Inr token, w2) \<and>
           40 \<le> length token \<and>
           GetUsername L w2 ''ammie'' token = (Inr ''Ammie'', w3)"
proof -
  let ?row = "new_user_row L w ''Ammie'' ''cats123''"
  let ?w1 = "w\<lparr>entropy := drop PasswordSaltLength (entropy w),
               Users := Users w @ [?row], seq_Users := seq_Users w + 1\<rparr>"
  let ?e1 = "drop PasswordSaltLength (entropy w)"
  let ?token = "base64encode (take SessionTokenLength ?e1)"
  let ?salt = "base64encode (take PasswordSaltLength (drop SessionTokenLength ?e1))"
  let ?st = "SessionTokens_json [[hashToken L ?token ?salt, ?salt]]"
  let ?w2 = "update_session_tokens
               (?w1\<lparr>entropy := drop (SessionTokenLength + PasswordSaltLength) ?e1\<rparr>)
               ?st ''Ammie''"
  have valid: "isUsernameValid ''Ammie''" "isPasswordValid ''cats123''"
    by (simp_all add: isUsernameValid_def isPasswordValid_def allowedCharacters_def)
  have r1: "RegisterUser L w ''Ammie'' ''cats123'' = (Inr (), ?w1)"
    using assms valid by (simp add: RegisterUser_fresh)
  have sel1: "select_user ?w1 ''Ammie'' = Some ?row"
    using assms(3) by (simp add: select_user_def find_append_list new_user_row_def nocase_eq_def)
  have app: "AppendNew L SessionTokens_empty ?e1 =
               (Inr ?token, ?st, drop (SessionTokenLength + PasswordSaltLength) ?e1)"
    using assms(2)
    by (subst AppendNew_below_cap[where s = "[]"]) (simp_all add: MaxTokensPerUser_def Let_def)
  have r2: "LoginUser L ?w1 ''Ammie'' ''cats123'' = (Inr ?token, ?w2)"
    using assms(1) sel1 app
    by (simp add: LoginUser_def sql_step_no_faults new_user_row_def)
  have len: "length ?token = 40"
    using assms(2)
    by (simp add: length_base64encode SessionTokenLength_def PasswordSaltLength_def)
  have f2: "faults ?w2 = []"
    using assms(1) by (simp add: update_session_tokens_def)
  have fold: "nocase_eq ''ammie'' ''Ammie''"
    by (simp add: nocase_eq_def sqlite_lower_def)
  have "select_user (?w1\<lparr>entropy := drop (SessionTokenLength + PasswordSaltLength) ?e1\<rparr>)
          ''Ammie'' = Some ?row"
    using sel1 by (simp add: select_user_def)
  then have "select_user ?w2 ''Ammie'' = Some (?row\<lparr>session_tokens := ?st\<rparr>)"
    by (simp only: select_user_update) (simp add: new_user_row_def nocase_eq_def)
  then have sel2: "select_user ?w2 ''ammie'' = Some (?row\<lparr>session_tokens := ?st\<rparr>)"
    by (simp only: select_user_nocase[OF fold])
  have has: "HasToken L ?st ?token = Inr True"
    by (simp add: HasToken_def)
  have au: "authenticateUser L ?w2 ''ammie'' ?token = (Inr (seq_Users w + 1), ?w2)"
    using f2 sel2 has
    by (simp add: authenticateUser_eq sql_step_no_faults new_user_row_def)
  have old: "find (\<lambda>r. Users_id r = seq_Users w + 1) (Users w) = None"
    using assms(4) by (auto simp: find_None_iff)
  have byid: "select_username_by_id ?w2 (seq_Users w + 1) = Some ''Ammie''"
    using old
    by (simp add: select_username_by_id_def update_session_tokens_def find_append_list
        find_map_keep new_user_row_def nocase_eq_def)
  have r3: "GetUsername L ?w2 ''ammie'' ?token = (Inr ''Ammie'', ?w2)"
    using au byid f2 by (simp add: GetUsername_def sql_step_no_faults)
  from r1 r2 len r3 show ?thesis
    by (intro exI[of _ ?w1] exI[of _ ?token] exI[of _ ?w2]) simp
qed

theorem ammie_scenario_witness:
  "\<exists>w1 token w2 w3.
     RegisterUser example_lib fresh_store ''Ammie'' ''cats123'' = (Inr (), w1) \<and>
     LoginUser example_lib w1 ''Ammie'' ''cats123'' = (Inr token, w2) \<and>
     40 \<le> length token \<and>
     GetUsername example_lib w2 ''ammie'' token = (Inr ''Ammie'', w3)"
proof -
  have "faults fresh_store = []"
    by (simp add: fresh_store_def)
  moreover have "PasswordSaltLength + SessionTokenLength + PasswordSaltLength
                   \<le> length (entropy fresh_store)"
    by (simp add: fresh_store_def PasswordSaltLength_def SessionTokenLength_def)
  moreover have "select_user fresh_store ''Ammie'' = None"
    by (simp add: fresh_store_def select_user_def)
  moreover have "\<forall>r\<in>set (Users fresh_store). Users_id r \<le> seq_Users fresh_store"
    by (simp add: fresh_store_def)
  ultimately show ?thesis
    by (rule ammie_scenario)
qed

text \<open>
  C10. For every username and token, \<open>IsAuthDataValid\<close> returns \<open>false\<close> and no error
  when the user does not exist or when the token is not in that user's ledger, and
  \<open>true\<close> when \<open>authenticateUser\<close> succeeds. An error comes back only from the storage:
  the SELECT failed in the driver, or the stored \<open>session_tokens\<close> text of the user
  cannot be read as a list of pairs; on a well-formed store only the former is left.
\<close>

theorem IsAuthDataValid_outcomes:
  "(\<not> fst (sql_step w) \<and> select_user w name = None \<longrightarrow>
      fst (IsAuthDataValid L w name token) = Inr False) \<and>
   (\<not> fst (sql_step w) \<and> select_user w name = Some row \<and>
    HasToken L (session_tokens row) token = Inr False \<longrightarrow>
      fst (IsAuthDataValid L w name token) = Inr False) \<and>
   (fst (authenticateUser L w name token) = Inr userId \<longrightarrow>
      fst (IsAuthDataValid L w name token) = Inr True) \<and>
   (fst (IsAuthDataValid L w name token) = Inl err \<longrightarrow>
      (fst (sql_step w) \<and> err = ErrSqlDriver) \<or>
      (\<exists>r. select_user w name = Some r \<and> \<not> wellformed_tokens (session_tokens r))) \<and>
   (store_ok w \<and> fst (IsAuthDataValid L w name token) = Inl err \<longrightarrow>
      fst (sql_step w) \<and> err = ErrSqlDriver)"
proof -
  have c1: "\<not> fst (sql_step w) \<and> select_user w name = None \<longrightarrow>
      fst (IsAuthDataValid L w name token) = Inr False"
    by (simp add: IsAuthDataValid_def authenticateUser_eq)
  have c2: "\<not> fst (sql_step w) \<and> select_user w name = Some row \<and>
    HasToken L (session_tokens row) token = Inr False \<longrightarrow>
      fst (IsAuthDataValid L w name token) = Inr False"
    by (simp add: IsAuthDataValid_def authenticateUser_eq)
  have c3: "fst (authenticateUser L w name token) = Inr userId \<longrightarrow>
      fst (IsAuthDataValid L w name token) = Inr True"
    by (cases "authenticateUser L w name token") (simp add: IsAuthDataValid_def)
  have c4: "fst (IsAuthDataValid L w name token) = Inl err \<longrightarrow>
      (fst (sql_step w) \<and> err = ErrSqlDriver) \<or>
      (\<exists>r. select_user w name = Some r \<and> \<not> wellformed_tokens (session_tokens r))"
    by (auto simp: IsAuthDataValid_def authenticateUser_eq
        split: if_splits option.splits sum.splits dest: HasToken_error)
  have c5: "store_ok w \<and> fst (IsAuthDataValid L w name token) = Inl err \<longrightarrow>
      fst (sql_step w) \<and> err = ErrSqlDriver"
    using c4 select_user_in_set store_ok_row by blast
  from c1 c2 c3 c4 c5 show ?thesis by blast
qed

theorem IsAuthDataValid_outcomes_witness:
  "fst (IsAuthDataValid example_lib ammie_store ''nobody'' ''tok'') = Inr False \<and>
   fst (IsAuthDataValid example_lib ammie_store ''ammie'' ''zz'') = Inr False \<and>
   fst (IsAuthDataValid example_lib ammie_store ''ammie'' ''tok'') = Inr True \<and>
   fst (IsAuthDataValid example_lib (ammie_store\<lparr>faults := [True]\<rparr>) ''ammie'' ''tok'')
     = Inl ErrSqlDriver \<and>
   store_ok (ammie_store\<lparr>faults := [True]\<rparr>) \<and>
   fst (sql_step (ammie_store\<lparr>faults := [True]\<rparr>))"
proof -
  let ?row = "hd (Users ammie_store)"
  have step: "\<not> fst (sql_step ammie_store)"
    by (simp add: sql_step_def ammie_store_def)
  have nobody: "select_user ammie_store ''nobody'' = None"
    by (simp add: select_user_def ammie_store_def nocase_eq_def sqlite_lower_def)
  have ammie: "select_user ammie_store ''ammie'' = Some ?row"
    by (simp add: select_user_def ammie_store_def nocase_eq_def sqlite_lower_def)
  have no: "HasToken example_lib (session_tokens ?row) ''zz'' = Inr False"
    by (simp add: ammie_store_def HasToken_def hashToken_def example_lib_def encodeURL_def)
  have yes: "HasToken example_lib (session_tokens ?row) ''tok'' = Inr True"
    by (simp add: ammie_store_def HasToken_def hashToken_def example_lib_def encodeURL_def)
  have auth: "fst (authenticateUser example_lib ammie_store ''ammie'' ''tok'') = Inr 1"
    using step ammie yes by (simp add: authenticateUser_eq) (simp add: ammie_store_def)
  have down: "fst (IsAuthDataValid example_lib (ammie_store\<lparr>faults := [True]\<rparr>) ''ammie'' ''tok'')
                = Inl ErrSqlDriver"
    by (simp add: IsAuthDataValid_def authenticateUser_eq sql_step_def)
  have ok: "store_ok (ammie_store\<lparr>faults := [True]\<rparr>)"
    by (simp add: store_ok_def ammie_store_def wellformed_tokens_def)
  note t1 = IsAuthDataValid_outcomes
              [where w = ammie_store and name = "''nobody''" and L = example_lib
                 and token = "''tok''"]
  note t2 = IsAuthDataValid_outcomes
              [where w = ammie_store and name = "''ammie''" and L = example_lib
                 and token = "''zz''" and row = ?row]
  note t3 = IsAuthDataValid_outcomes
              [where w = ammie_store and name = "''ammie''" and L = example_lib
                 and token = "''tok''" and userId = 1]
  note t5 = IsAuthDataValid_outcomes
              [where w = "ammie_store\<lparr>faults := [True]\<rparr>" and name = "''ammie''"
                 and L = example_lib and token = "''tok''" and err = ErrSqlDriver]
  from t1 step nobody
  have a: "fst (IsAuthDataValid example_lib ammie_store ''nobody'' ''tok'') = Inr False"
    by blast
  from t2 step ammie no
  have b: "fst (IsAuthDataValid example_lib ammie_store ''ammie'' ''zz'') = Inr False"
    by blast
  from t3 auth
  have c: "fst (IsAuthDataValid example_lib ammie_store ''ammie'' ''tok'') = Inr True"
    by blast
  from t5 ok down have d: "fst (sql_step (ammie_store\<lparr>faults := [True]\<rparr>))"
    by blast
  from a b c d down ok show ?thesis by blast
qed

text \<open>
  C4. For every import of a folder whose metadata decodes and declares \<open>N\<close> pages and
  whose directory can be listed, with no failure in the driver: fewer than \<open>N\<close>
  qualifying page files give the "missing pages" error, more than \<open>N\<close> the "too many
  pages" error, and exactly \<open>N\<close> whose sorted numbers are not \<open>1..N\<close> the
  "non-sequential pages" error, which reports \<open>k + 1\<close> and the number found at the first
  index \<open>k\<close> where the sorted numbers leave the sequence. When the sorted numbers are
  \<open>1..N\<close> (\<open>N\<close> not negative) the import commits; and, driver failures or not, an
  import that returns no error had page numbers forming exactly \<open>1..N\<close>.
\<close>

theorem import_validates_page_numbers:
  assumes md: "metadata_json dir = Decodes doujinMeta" and rd: "ReadDir dir = Some es"
  shows
    "(faults w = [] \<and> int (length (page_numbers es)) < meta_Pages doujinMeta \<longrightarrow>
        fst (RegisterDoujin L w dir fp) =
          Inl (ErrPagesMissing (int (length (page_numbers es))) (meta_Pages doujinMeta))) \<and>
     (faults w = [] \<and> int (length (page_numbers es)) > meta_Pages doujinMeta \<longrightarrow>
        fst (RegisterDoujin L w dir fp) =
          Inl (ErrTooManyPages (int (length (page_numbers es))) (meta_Pages doujinMeta))) \<and>
     (faults w = [] \<and> int (length (page_numbers es)) = meta_Pages doujinMeta \<and>
      sort (page_numbers es) \<noteq> [1 .. meta_Pages doujinMeta] \<longrightarrow>
        (\<exists>k<length (page_numbers es).
           fst (RegisterDoujin L w dir fp) =
             Inl (ErrPagesNotSequential (int k + 1) (sort (page_numbers es) ! k)) \<and>
           sort (page_numbers es) ! k \<noteq> int k + 1 \<and>
           (\<forall>j<k. sort (page_numbers es) ! j = int j + 1))) \<and>
     (faults w = [] \<and> 0 \<le> meta_Pages doujinMeta \<and>
      sort (page_numbers es) = [1 .. meta_Pages doujinMeta] \<longrightarrow>
        fst (RegisterDoujin L w dir fp) = Inr ()) \<and>
     (fst (RegisterDoujin L w dir fp) = Inr () \<longrightarrow>
        sort (page_numbers es) = [1 .. meta_Pages doujinMeta])"
proof -
  let ?ps = "page_numbers es" and ?N = "meta_Pages doujinMeta"
  note run = RegisterDoujin_no_faults[OF md rd, of w L fp]
  have seq: "first_gap 0 (sort ?ps) = None \<longleftrightarrow> sort ?ps = [1 .. int (length ?ps)]"
    using first_gap_None_iff[of 0 "sort ?ps"] by simp
  have a: "faults w = [] \<and> int (length ?ps) < ?N \<longrightarrow>
        fst (RegisterDoujin L w dir fp) = Inl (ErrPagesMissing (int (length ?ps)) ?N)"
    using run by simp
  have b: "faults w = [] \<and> int (length ?ps) > ?N \<longrightarrow>
        fst (RegisterDoujin L w dir fp) = Inl (ErrTooManyPages (int (length ?ps)) ?N)"
    using run by simp
  have c: "faults w = [] \<and> int (length ?ps) = ?N \<and> sort ?ps \<noteq> [1 .. ?N] \<longrightarrow>
        (\<exists>k<length ?ps.
           fst (RegisterDoujin L w dir fp) =
             Inl (ErrPagesNotSequential (int k + 1) (sort ?ps ! k)) \<and>
           sort ?ps ! k \<noteq> int k + 1 \<and>
           (\<forall>j<k. sort ?ps ! j = int j + 1))"
  proof (intro impI, elim conjE)
    assume nf: "faults w = []" and n: "int (length ?ps) = ?N" and ne: "sort ?ps \<noteq> [1 .. ?N]"
    from ne n seq obtain e f where g: "first_gap 0 (sort ?ps) = Some (e, f)"
      by (cases "first_gap 0 (sort ?ps)") auto
    from first_gap_Some[OF g] obtain k where
      k: "k < length ?ps" "e = int k + 1" "f = sort ?ps ! k" "f \<noteq> e"
         "\<forall>j<k. sort ?ps ! j = int j + 1"
      by auto
    from run[OF nf] n g k have
      "fst (RegisterDoujin L w dir fp) = Inl (ErrPagesNotSequential (int k + 1) (sort ?ps ! k))"
      by simp
    with k show "\<exists>k<length ?ps.
           fst (RegisterDoujin L w dir fp) =
             Inl (ErrPagesNotSequential (int k + 1) (sort ?ps ! k)) \<and>
           sort ?ps ! k \<noteq> int k + 1 \<and>
           (\<forall>j<k. sort ?ps ! j = int j + 1)"
      by blast
  qed
  have d: "faults w = [] \<and> 0 \<le> ?N \<and> sort ?ps = [1 .. ?N] \<longrightarrow>
             fst (RegisterDoujin L w dir fp) = Inr ()"
  proof (intro impI, elim conjE)
    assume nf: "faults w = []" and n0: "0 \<le> ?N" and e: "sort ?ps = [1 .. ?N]"
    have "length (sort ?ps) = length [1 .. ?N]" by (simp only: e)
    with n0 have n: "int (length ?ps) = ?N" by simp
    with e seq have "first_gap 0 (sort ?ps) = None" by simp
    with run[OF nf] n show "fst (RegisterDoujin L w dir fp) = Inr ()" by simp
  qed
  have e: "fst (RegisterDoujin L w dir fp) = Inr () \<longrightarrow> sort ?ps = [1 .. ?N]"
    using RegisterDoujin_Inr[OF md rd, of L w fp] seq by auto
  from a b c d e show ?thesis by blast
qed


theorem import_validates_page_numbers_witness:
  "fst (RegisterDoujin example_lib fresh_store folder_missing ''lib/a'') =
     Inl (ErrPagesMissing 2 3) \<and>
   fst (RegisterDoujin example_lib fresh_store folder_gap ''lib/b'') =
     Inl (ErrPagesNotSequential 3 4) \<and>
   fst (RegisterDoujin example_lib fresh_store folder_complete ''lib/c'') = Inr () \<and>
   sort (page_numbers (the (ReadDir folder_complete))) = [1 .. 3]"
proof -
  have nf: "faults fresh_store = []"
    by (simp add: fresh_store_def)
  have n: "meta_Pages example_metadata = 3"
    by (simp add: example_metadata_def)
  have up: "[1 .. 3] = [1, 2, 3 :: int]"
    by (simp add: upto_rec1)
  have m: "metadata_json folder_missing = Decodes example_metadata"
          "ReadDir folder_missing = Some (the (ReadDir folder_missing))"
    by (simp_all add: folder_missing_def)
  have g: "metadata_json folder_gap = Decodes example_metadata"
          "ReadDir folder_gap = Some (the (ReadDir folder_gap))"
    by (simp_all add: folder_gap_def)
  have c: "metadata_json folder_complete = Decodes example_metadata"
          "ReadDir folder_complete = Some (the (ReadDir folder_complete))"
    by (simp_all add: folder_complete_def)
  from import_validates_page_numbers[OF m, of fresh_store example_lib "''lib/a''"] nf n
  have a: "fst (RegisterDoujin example_lib fresh_store folder_missing ''lib/a'') =
             Inl (ErrPagesMissing 2 3)"
    by (simp add: page_numbers_folder_missing)
  from import_validates_page_numbers[OF g, of fresh_store example_lib "''lib/b''"] nf n up
  obtain k where
    k: "k < 3"
       "fst (RegisterDoujin example_lib fresh_store folder_gap ''lib/b'') =
          Inl (ErrPagesNotSequential (int k + 1) ([1, 2, 4] ! k))"
       "[1, 2, 4 :: int] ! k \<noteq> int k + 1"
    by (auto simp: page_numbers_folder_gap)
  from k(1) have "k = 0 \<or> k = 1 \<or> k = 2" by auto
  with k(3) have "k = 2" by auto
  with k(2) have b: "fst (RegisterDoujin example_lib fresh_store folder_gap ''lib/b'') =
             Inl (ErrPagesNotSequential 3 4)"
    by simp
  have s: "sort (page_numbers (the (ReadDir folder_complete))) = [1 .. 3]"
    by (simp add: page_numbers_folder_complete up)
  from import_validates_page_numbers[OF c, of fresh_store example_lib "''lib/c''"] nf n s
  have d: "fst (RegisterDoujin example_lib fresh_store folder_complete ''lib/c'') = Inr ()"
    by simp
  from a b d s show ?thesis by simp
qed

text \<open>
  C5. Whenever an import fails after the \<open>Doujins\<close> row was inserted (in particular
  while inserting pages or validating their count and sequence), the \<open>DoujinPages\<close>
  table is what it was before the call, so no page row of that import persists, while
  the \<open>Doujins\<close> row stays in the store: a doujin with the declared page count and no
  page row of its own. (Page rows are taken to refer to doujins already numbered.)
\<close>

theorem failed_import_keeps_doujin_row:
  assumes md: "metadata_json dir = Decodes doujinMeta"
    and s0: "\<not> fst (sql_step w)"
    and fail: "RegisterDoujin L w dir fp = (Inl err, w')"
    and fk: "\<forall>p\<in>set (DoujinPages w). doujin_id p \<le> seq_Doujins w"
  shows "DoujinPages w' = DoujinPages w \<and>
         (\<exists>row. Doujins w' = Doujins w @ [row] \<and> Doujins_id row = seq_Doujins w + 1 \<and>
                title row = meta_Title doujinMeta \<and> pages row = meta_Pages doujinMeta \<and>
                filter (\<lambda>p. doujin_id p = Doujins_id row) (DoujinPages w') = [])"
proof -
  from RegisterDoujin_failure_world[OF md s0 fail] obtain fs where
    w': "w' = (snd (insert_doujin w doujinMeta))\<lparr>faults := fs\<rparr>" by blast
  have p: "DoujinPages w' = DoujinPages w"
    by (simp add: w' insert_doujin_def Let_def)
  have "filter (\<lambda>p. doujin_id p = seq_Doujins w + 1) (DoujinPages w) = []"
    using fk by (auto simp: filter_empty_conv)
  with p show ?thesis
    by (simp add: w' insert_doujin_def Let_def)
qed


theorem failed_import_keeps_doujin_row_witness:
  "fst (RegisterDoujin example_lib (fresh_store\<lparr>faults := [False, False, True]\<rparr>)
          folder_complete ''lib/c'') = Inl ErrSqlDriver \<and>
   DoujinPages (snd (RegisterDoujin example_lib (fresh_store\<lparr>faults := [False, False, True]\<rparr>)
                       folder_complete ''lib/c'')) = [] \<and>
   (\<exists>row. Doujins (snd (RegisterDoujin example_lib
                            (fresh_store\<lparr>faults := [False, False, True]\<rparr>)
                            folder_complete ''lib/c'')) = [row] \<and>
          Doujins_id row = 1 \<and> title row = ''Title'' \<and> pages row = 3)"
proof -
  let ?w = "fresh_store\<lparr>faults := [False, False, True]\<rparr>"
  let ?r = "RegisterDoujin example_lib ?w folder_complete ''lib/c''"
  have md: "metadata_json folder_complete = Decodes example_metadata"
    by (simp add: folder_complete_def)
  have s0: "\<not> fst (sql_step ?w)"
    by (simp add: sql_step_def)
  have e: "fst ?r = Inl ErrSqlDriver"
    by (simp add: RegisterDoujin_def folder_complete_def sql_step_def insert_doujin_def
        page_eval tx_Begin_def tx_Insert_def)
  then have fail: "?r = (Inl ErrSqlDriver, snd ?r)"
    by (simp add: prod_eq_iff)
  have fk: "\<forall>p\<in>set (DoujinPages ?w). doujin_id p \<le> seq_Doujins ?w"
    by (simp add: fresh_store_def)
  from failed_import_keeps_doujin_row[OF md s0 fail fk]
  have "DoujinPages (snd ?r) = []"
    and "\<exists>row. Doujins (snd ?r) = [row] \<and> Doujins_id row = 1 \<and> title row = ''Title'' \<and>
               pages row = 3"
    by (auto simp: fresh_store_def example_metadata_def)
  with e show ?thesis by simp
qed


text \<open>
  C6. Every doujin \<open>SearchDoujins\<close> returns carries every tag listed in \<open>tags\<close> and none
  listed in \<open>antiTags\<close>; a row passes the filters of the two statements exactly when,
  beside the LIKE test, every listed tag is an element of its stored tag array and no
  listed anti-tag is. In particular, with an empty free-text query, a doujin tagged
  \<open>yuri, romance\<close> is returned for \<open>tags = [yuri]\<close> (on page 1 of a page size that holds
  the whole table), and no doujin so tagged is returned for \<open>antiTags = [yuri]\<close> or for
  \<open>tags = [yaoi]\<close>.
\<close>

theorem search_tag_filters:
  "(SearchDoujins L w name token q tagList antiTags pageSize pageNumber = (Inr res, w') \<longrightarrow>
      (\<forall>d\<in>set (Entries res).
         (\<forall>t\<in>set tagList. t \<in> set (Doujin_Tags d)) \<and>
         (\<forall>t\<in>set antiTags. t \<notin> set (Doujin_Tags d)))) \<and>
   (row \<in> set (matching (search_filters q tagList antiTags) table) \<longleftrightarrow>
      row \<in> set table \<and>
      (sql_like (''%'' @ escapeSqlLike q @ ''%'') (title row) \<or>
       sql_like (''%'' @ escapeSqlLike q @ ''%'') (subtitle row)) \<and>
      (\<forall>t\<in>set tagList. t \<in> set (tags row)) \<and>
      (\<forall>t\<in>set antiTags. t \<notin> set (tags row))) \<and>
   (faults w = [] \<and> fst (authenticateUser L w name token) = Inr userId \<and>
    1 \<le> pageSize \<and> pageSize \<le> 100 \<and> int (length (Doujins w)) \<le> pageSize \<and>
    row \<in> set (Doujins w) \<and> tags row = [''yuri'', ''romance''] \<longrightarrow>
      (\<exists>r. fst (SearchDoujins L w name token [] [''yuri''] [] pageSize 1) = Inr r \<and>
            entry_of w row \<in> set (Entries r))) \<and>
   (SearchDoujins L w name token [] [] [''yuri''] pageSize pageNumber = (Inr res, w') \<longrightarrow>
      (\<forall>d\<in>set (Entries res). Doujin_Tags d \<noteq> [''yuri'', ''romance''])) \<and>
   (SearchDoujins L w name token [] [''yaoi''] [] pageSize pageNumber = (Inr res, w') \<longrightarrow>
      (\<forall>d\<in>set (Entries res). Doujin_Tags d \<noteq> [''yuri'', ''romance'']))"
proof -
  have a: "SearchDoujins L w name token q tagList antiTags pageSize pageNumber = (Inr res, w') \<longrightarrow>
      (\<forall>d\<in>set (Entries res).
         (\<forall>t\<in>set tagList. t \<in> set (Doujin_Tags d)) \<and>
         (\<forall>t\<in>set antiTags. t \<notin> set (Doujin_Tags d)))"
    using SearchDoujins_entries_tags by blast
  note b = matching_search_filters[of row q tagList antiTags table]
  have c: "faults w = [] \<and> fst (authenticateUser L w name token) = Inr userId \<and>
    1 \<le> pageSize \<and> pageSize \<le> 100 \<and> int (length (Doujins w)) \<le> pageSize \<and>
    row \<in> set (Doujins w) \<and> tags row = [''yuri'', ''romance''] \<longrightarrow>
      (\<exists>r. fst (SearchDoujins L w name token [] [''yuri''] [] pageSize 1) = Inr r \<and>
            entry_of w row \<in> set (Entries r))"
  proof (intro impI, elim conjE)
    assume nf: "faults w = []" and au: "fst (authenticateUser L w name token) = Inr userId"
      and ps: "1 \<le> pageSize" "pageSize \<le> 100" and fits: "int (length (Doujins w)) \<le> pageSize"
      and row: "row \<in> set (Doujins w)" "tags row = [''yuri'', ''romance'']"
    have "row \<in> set (matching (search_filters [] [''yuri''] []) (Doujins w))"
      unfolding matching_search_filters using row
      by (simp del: sql_like.simps add: escapeSqlLike_def sql_like_percent2)
    from search_returns_matching_row[OF nf au ps fits this]
    show "\<exists>r. fst (SearchDoujins L w name token [] [''yuri''] [] pageSize 1) = Inr r \<and>
            entry_of w row \<in> set (Entries r)" .
  qed
  have d: "SearchDoujins L w name token [] [] [''yuri''] pageSize pageNumber = (Inr res, w') \<longrightarrow>
      (\<forall>d\<in>set (Entries res). Doujin_Tags d \<noteq> [''yuri'', ''romance''])"
  proof (intro impI ballI)
    fix d
    assume ok: "SearchDoujins L w name token [] [] [''yuri''] pageSize pageNumber = (Inr res, w')"
      and d: "d \<in> set (Entries res)"
    from SearchDoujins_entries_tags[OF ok d] have "''yuri'' \<notin> set (Doujin_Tags d)" by simp
    then show "Doujin_Tags d \<noteq> [''yuri'', ''romance'']" by auto
  qed
  have e: "SearchDoujins L w name token [] [''yaoi''] [] pageSize pageNumber = (Inr res, w') \<longrightarrow>
      (\<forall>d\<in>set (Entries res). Doujin_Tags d \<noteq> [''yuri'', ''romance''])"
  proof (intro impI ballI)
    fix d
    assume ok: "SearchDoujins L w name token [] [''yaoi''] [] pageSize pageNumber = (Inr res, w')"
      and d: "d \<in> set (Entries res)"
    from SearchDoujins_entries_tags[OF ok d] have "''yaoi'' \<in> set (Doujin_Tags d)" by simp
    then show "Doujin_Tags d \<noteq> [''yuri'', ''romance'']" by auto
  qed
  from a b c d e show ?thesis by blast
qed

theorem search_tag_filters_witness:
  "tags (hd (Doujins search_store)) = [''yuri'', ''romance''] \<and>
   (\<exists>r. fst (SearchDoujins example_lib search_store ''ammie'' ''tok'' [] [''yuri''] [] 100 1)
           = Inr r \<and>
        entry_of search_store (hd (Doujins search_store)) \<in> set (Entries r)) \<and>
   (\<exists>r. fst (SearchDoujins example_lib search_store ''ammie'' ''tok'' [] [] [''yuri''] 100 1)
           = Inr r \<and>
        map Doujin_Id (Entries r) = [3] \<and>
        list_all (\<lambda>d. Doujin_Tags d \<noteq> [''yuri'', ''romance'']) (Entries r))"
proof -
  let ?row = "hd (Doujins search_store)"
  let ?third = "Doujins search_store ! 2"
  have nf: "faults search_store = []"
    by (simp add: search_store_def)
  note au = search_store_auth
  have row: "?row \<in> set (Doujins search_store)" "tags ?row = [''yuri'', ''romance'']"
    by (simp_all add: search_store_def)
  have fits: "int (length (Doujins search_store)) \<le> 100"
    by (simp add: search_store_def)
  note t = search_tag_filters[where L = example_lib and w = search_store and name = "''ammie''"
      and token = "''tok''" and userId = 1 and pageSize = 100 and pageNumber = 1
      and row = ?row]
  from t nf au row fits
  have a: "\<exists>r. fst (SearchDoujins example_lib search_store ''ammie'' ''tok'' [] [''yuri''] [] 100 1)
                 = Inr r \<and> entry_of search_store ?row \<in> set (Entries r)"
    by simp
  have m: "matching (search_filters [] [] [''yuri'']) (Doujins search_store) = [?third]"
    by (simp del: sql_like.simps
        add: matching_def search_filters_def search_store_def escapeSqlLike_def
          sql_like_percent2)
  have c: "\<lceil>real_of_int (int 1) / real_of_int 100\<rceil> = 1"
    using ceiling_pages[of 100 1] by simp
  let ?res = "\<lparr>Entries = [entry_of search_store ?third], TotalPages = 1\<rparr>"
  have first: "fst (SearchDoujins example_lib search_store ''ammie'' ''tok'' [] [] [''yuri''] 100 1)
          = Inr ?res"
    using SearchDoujins_no_faults[OF nf au, where pageSize = 100 and pageNumber = 1
        and q = "[]" and tagList = "[]" and antiTags = "[''yuri'']"] c
    by (simp add: Let_def m order_by_upload_date_desc_def)
  then have ok: "SearchDoujins example_lib search_store ''ammie'' ''tok'' [] [] [''yuri''] 100 1
                   = (Inr ?res,
                      snd (SearchDoujins example_lib search_store ''ammie'' ''tok'' [] []
                             [''yuri''] 100 1))"
    by (simp add: prod_eq_iff)
  from search_tag_filters[where L = example_lib and w = search_store and name = "''ammie''"
      and token = "''tok''" and pageSize = 100 and pageNumber = 1 and res = ?res
      and w' = "snd (SearchDoujins example_lib search_store ''ammie'' ''tok'' [] []
                       [''yuri''] 100 1)"] ok
  have "\<forall>d\<in>set (Entries ?res). Doujin_Tags d \<noteq> [''yuri'', ''romance'']"
    by blast
  then have "list_all (\<lambda>d. Doujin_Tags d \<noteq> [''yuri'', ''romance'']) (Entries ?res)"
    by (simp add: list_all_iff)
  moreover have "map Doujin_Id (Entries ?res) = [3]"
    by (simp add: entry_of_def to_Doujin_def search_store_def)
  ultimately have b:
    "\<exists>r. fst (SearchDoujins example_lib search_store ''ammie'' ''tok'' [] [] [''yuri''] 100 1)
            = Inr r \<and>
         map Doujin_Id (Entries r) = [3] \<and>
         list_all (\<lambda>d. Doujin_Tags d \<noteq> [''yuri'', ''romance'']) (Entries r)"
    using first by (intro exI[of _ ?res]) simp
  from row(2) a b show ?thesis by blast
qed

end
